theory Spec2Isabelle
  imports Complex_Main
begin

section \<open>Python values used by the resilience package\<close>

text \<open>
  Wait times, bases and bounds are Python numbers, \<open>int | float\<close>. An \<open>int\<close> is
  unbounded; a finite \<open>float\<close> is a real number (the package only compares floats and never
  does arithmetic on them, so no rounding takes place; the one library call that scales a
  float, \<open>time.sleep\<close>, is given by the exact interval it accepts; \<open>inf\<close> and \<open>nan\<close> are
  outside the model). The tag is kept because \<open><<\<close>, the \<open>.2f\<close> format and \<open>time.sleep\<close>
  treat \<open>int\<close> and \<open>float\<close> differently.
\<close>

datatype pynum = PInt int | PFloat real

fun num_val :: "pynum \<Rightarrow> real" where
  "num_val (PInt i) = of_int i"
| "num_val (PFloat x) = x"

definition py_lt :: "pynum \<Rightarrow> pynum \<Rightarrow> bool" where
  "py_lt a b = (num_val a < num_val b)"

text \<open>\<open>min(a, b)\<close> keeps \<open>a\<close> unless \<open>b < a\<close>; \<open>max(a, b)\<close> keeps \<open>a\<close> unless \<open>b > a\<close>.\<close>

definition py_min :: "pynum \<Rightarrow> pynum \<Rightarrow> pynum" where
  "py_min a b = (if py_lt b a then b else a)"

definition py_max :: "pynum \<Rightarrow> pynum \<Rightarrow> pynum" where
  "py_max a b = (if py_lt a b then b else a)"

text \<open>
  Exception classes form a single-inheritance tree below \<open>BaseException\<close>; a class is
  its name together with its base class. An exception object is its class and its message.
\<close>

datatype exc_class = BaseException | Subclass string exc_class

definition Exception :: exc_class where
  "Exception = Subclass ''Exception'' BaseException"

definition TypeError :: exc_class where
  "TypeError = Subclass ''TypeError'' Exception"

definition ValueError :: exc_class where
  "ValueError = Subclass ''ValueError'' Exception"

definition KeyboardInterrupt :: exc_class where
  "KeyboardInterrupt = Subclass ''KeyboardInterrupt'' BaseException"

definition OSError :: exc_class where
  "OSError = Subclass ''OSError'' Exception"

definition OverflowError :: exc_class where
  "OverflowError = Subclass ''OverflowError'' (Subclass ''ArithmeticError'' Exception)"

definition FileNotFoundError :: exc_class where
  "FileNotFoundError = Subclass ''FileNotFoundError'' OSError"

fun issubclass :: "exc_class \<Rightarrow> exc_class \<Rightarrow> bool" where
  "issubclass BaseException d = (d = BaseException)"
| "issubclass (Subclass n p) d = (Subclass n p = d \<or> issubclass p d)"

datatype exn = Exn (exc_type: exc_class) (exc_msg: string)

text \<open>
  \<open>base << counter\<close>: a \<open>float\<close> left operand raises \<open>TypeError\<close>, a negative count
  raises \<open>ValueError\<close>, otherwise the result is the integer \<open>base * 2 ^ counter\<close>.
  (The messages are written without the quotation marks Python puts around type names.)
\<close>

fun py_lshift :: "pynum \<Rightarrow> int \<Rightarrow> exn + pynum" where
  "py_lshift (PFloat x) c =
     Inl (Exn TypeError ''unsupported operand type(s) for <<: float and int'')"
| "py_lshift (PInt b) c =
     (if c < 0 then Inl (Exn ValueError ''negative shift count'')
      else Inr (PInt (b * 2 ^ nat c)))"

text \<open>
  The f-string \<open>f"... {wait:.2f} seconds"\<close> is evaluated before \<open>logger.debug\<close> is called.
  The format \<open>.2f\<close> converts an \<open>int\<close> to \<open>float\<close>, which raises \<open>OverflowError\<close> when the
  integer rounds beyond the largest double, \<open>2^1024 - 2^971\<close>; a finite \<open>float\<close> is always
  formatted.
\<close>

fun format_wait :: "pynum \<Rightarrow> exn + unit" where
  "format_wait (PFloat x) = Inr ()"
| "format_wait (PInt i) =
     (if \<bar>i\<bar> < 2 ^ 1024 - 2 ^ 970 then Inr ()
      else Inl (Exn OverflowError ''int too large to convert to float''))"

text \<open>
  \<open>time.sleep(wait)\<close> (CPython 3.11) first converts the length to a signed 64-bit count of
  nanoseconds and raises \<open>OverflowError\<close> when it does not fit: an \<open>int\<close> is multiplied
  exactly; a \<open>float\<close> is multiplied by \<open>1e9\<close> in double arithmetic and the rounded product
  \<open>d\<close> must satisfy \<open>-2^63 \<le> d < 2^63\<close>, which for the exact product is the interval
  below (round to nearest, ties to even). Then a negative length raises \<open>ValueError\<close>.
  Otherwise the operating system is asked to pause; \<open>os_sleep\<close> says what it does with the
  length: \<open>None\<close> when the pause ends normally, the exception otherwise (a platform may
  refuse a long pause with \<open>OSError\<close>).
\<close>

fun in_timestamp_range :: "pynum \<Rightarrow> bool" where
  "in_timestamp_range (PInt i) = (- 9223372036 \<le> i \<and> i \<le> 9223372036)"
| "in_timestamp_range (PFloat x) = (- (2 ^ 63 + 2 ^ 10) \<le> x * 10 ^ 9 \<and> x * 10 ^ 9 < 2 ^ 63 - 2 ^ 9)"

fun timestamp_overflow :: "pynum \<Rightarrow> exn" where
  "timestamp_overflow (PInt i) = Exn OverflowError ''timestamp too large to convert to C _PyTime_t''"
| "timestamp_overflow (PFloat x) = Exn OverflowError ''timestamp out of range for platform time_t''"

definition time_sleep :: "(pynum \<Rightarrow> exn option) \<Rightarrow> pynum \<Rightarrow> exn + unit" where
  "time_sleep os_sleep w =
     (if \<not> in_timestamp_range w then Inl (timestamp_overflow w)
      else if num_val w < 0 then Inl (Exn ValueError ''sleep length must be non-negative'')
      else (case os_sleep w of Some e \<Rightarrow> Inl e | None \<Rightarrow> Inr ()))"

section \<open>Backoff strategies (resilience/backoff.py)\<close>

text \<open>
  A generator object is a frame over the state it closes over. The frame of the two
  generator functions of this module is only a position: not yet started, suspended at
  the \<open>yield\<close>, or finished (after an exception left the body). One \<open>next\<close> on a
  generator yields a value, stops, or raises; each result carries the state afterwards.
\<close>

datatype gen_pos = Start | AtYield | Finished

datatype 'g step = Yield pynum 'g | Stop 'g | Raise exn 'g

record ExponentialBackoff =
  base :: pynum
  min_wait_seconds :: pynum
  max_wait_seconds :: pynum
  counter :: int

definition ExponentialBackoff_init :: "pynum \<Rightarrow> pynum \<Rightarrow> pynum \<Rightarrow> ExponentialBackoff" where
  "ExponentialBackoff_init b mn mx =
     \<lparr> base = b, min_wait_seconds = mn, max_wait_seconds = mx, counter = 0 \<rparr>"

text \<open>
  The part of the loop body of \<open>ExponentialBackoff.__call__\<close> from the top of the
  \<open>while\<close> to the \<open>yield\<close>.
\<close>

definition eb_produce :: "ExponentialBackoff \<Rightarrow> (ExponentialBackoff \<times> gen_pos) step" where
  "eb_produce self =
     (case py_lshift (base self) (counter self) of
        Inl e \<Rightarrow> Raise e (self, Finished)
      | Inr shifted \<Rightarrow>
          (let upper_limit = py_min shifted (max_wait_seconds self)
           in Yield (py_max (min_wait_seconds self) upper_limit) (self, AtYield)))"

text \<open>
  One \<open>next\<close> on a generator made by \<open>ExponentialBackoff.__call__\<close>. The first one runs
  to the \<open>yield\<close>; a later one resumes behind the \<open>yield\<close>, so it first executes
  \<open>self.counter = self.counter + 1\<close> on the instance and then goes round the loop.
\<close>

fun eb_next :: "ExponentialBackoff \<times> gen_pos \<Rightarrow> (ExponentialBackoff \<times> gen_pos) step" where
  "eb_next (self, Start) = eb_produce self"
| "eb_next (self, AtYield) = eb_produce (self \<lparr> counter := counter self + 1 \<rparr>)"
| "eb_next (self, Finished) = Stop (self, Finished)"

text \<open>
  The random source is called with two numbers and returns a number; successive calls
  with the same arguments may differ (\<open>random.uniform\<close>), so its first argument here is
  the number of draws made before, kept in \<open>draws\<close>. The instance's own \<open>counter\<close> is
  set by the constructor and never read.
\<close>

record ExponentialBackoffWithJitter =
  jitter_base :: pynum
  exponential_backoff :: ExponentialBackoff
  jitter_min_wait_seconds :: pynum
  random_number_gen :: "nat \<Rightarrow> pynum \<Rightarrow> pynum \<Rightarrow> pynum"
  jitter_counter :: int
  draws :: nat

definition ExponentialBackoffWithJitter_init ::
  "pynum \<Rightarrow> pynum \<Rightarrow> pynum \<Rightarrow> (nat \<Rightarrow> pynum \<Rightarrow> pynum \<Rightarrow> pynum) \<Rightarrow> ExponentialBackoffWithJitter" where
  "ExponentialBackoffWithJitter_init b mn mx rng =
     \<lparr> jitter_base = b,
       exponential_backoff = ExponentialBackoff_init b mn mx,
       jitter_min_wait_seconds = mn,
       random_number_gen = rng,
       jitter_counter = 0,
       draws = 0 \<rparr>"

text \<open>
  One \<open>next\<close> on a generator made by \<open>ExponentialBackoffWithJitter.__call__\<close>: the
  \<open>for\<close> loop takes the next value of the inner generator (which it creates when it
  starts, so the inner frame is at the same position as the outer one), draws, and yields.
\<close>

definition jitter_next ::
  "ExponentialBackoffWithJitter \<times> gen_pos \<Rightarrow> (ExponentialBackoffWithJitter \<times> gen_pos) step" where
  "jitter_next g =
     (case g of (self, pos) \<Rightarrow>
        (if pos = Finished then Stop (self, Finished)
         else
           (case eb_next (exponential_backoff self, pos) of
              Yield wait_time (eb, pos') \<Rightarrow>
                (let random_wait = random_number_gen self (draws self) (PInt 0) wait_time
                 in Yield (py_max (jitter_min_wait_seconds self) random_wait)
                      (self \<lparr> exponential_backoff := eb, draws := draws self + 1 \<rparr>, pos'))
            | Stop (eb, pos') \<Rightarrow> Stop (self \<lparr> exponential_backoff := eb \<rparr>, Finished)
            | Raise e (eb, pos') \<Rightarrow> Raise e (self \<lparr> exponential_backoff := eb \<rparr>, Finished))))"

text \<open>
  A backoff strategy is one of the two classes above or any other implementation of the
  interface, given by the step function of its generators and the state they start from.
\<close>

datatype 'g BackoffStrategy =
    Exponential ExponentialBackoff
  | WithJitter ExponentialBackoffWithJitter
  | Custom "'g \<Rightarrow> 'g step" 'g

datatype 'g generator =
    ExpGen ExponentialBackoff gen_pos
  | JitGen ExponentialBackoffWithJitter gen_pos
  | CustomGen "'g \<Rightarrow> 'g step" 'g

text \<open>\<open>strategy()\<close>: a new generator frame over the instance as it is now.\<close>

fun strategy_call :: "'g BackoffStrategy \<Rightarrow> 'g generator" where
  "strategy_call (Exponential self) = ExpGen self Start"
| "strategy_call (WithJitter self) = JitGen self Start"
| "strategy_call (Custom nxt g) = CustomGen nxt g"

fun map_step :: "('g \<Rightarrow> 'h) \<Rightarrow> 'g step \<Rightarrow> 'h step" where
  "map_step f (Yield v g) = Yield v (f g)"
| "map_step f (Stop g) = Stop (f g)"
| "map_step f (Raise e g) = Raise e (f g)"

fun gen_next :: "'g generator \<Rightarrow> 'g generator step" where
  "gen_next (ExpGen self pos) = map_step (\<lambda>(s, p). ExpGen s p) (eb_next (self, pos))"
| "gen_next (JitGen self pos) = map_step (\<lambda>(s, p). JitGen s p) (jitter_next (self, pos))"
| "gen_next (CustomGen nxt g) = map_step (CustomGen nxt) (nxt g)"

fun step_state :: "'g step \<Rightarrow> 'g" where
  "step_state (Yield v g) = g"
| "step_state (Stop g) = g"
| "step_state (Raise e g) = g"

text \<open>
  Consuming a generator with step function \<open>nxt\<close>. \<open>pull nxt n g\<close> is the result of
  the \<open>next\<close> number \<open>n\<close> (counted from 0) when every earlier one yielded, and the first
  result that is not a yield otherwise. \<open>nth_value\<close> is the value it yields,
  \<open>first_values nxt n g\<close> the list of the values yielded by the first \<open>n\<close> calls, and
  \<open>gen_after nxt n g\<close> the state they leave.
\<close>

fun pull :: "('g \<Rightarrow> 'g step) \<Rightarrow> nat \<Rightarrow> 'g \<Rightarrow> 'g step" where
  "pull nxt 0 g = nxt g"
| "pull nxt (Suc n) g =
     (case nxt g of Yield v g' \<Rightarrow> pull nxt n g' | Stop g' \<Rightarrow> Stop g' | Raise e g' \<Rightarrow> Raise e g')"

definition nth_value :: "('g \<Rightarrow> 'g step) \<Rightarrow> nat \<Rightarrow> 'g \<Rightarrow> pynum option" where
  "nth_value nxt n g =
     (case pull nxt n g of Yield v g' \<Rightarrow> Some v | Stop g' \<Rightarrow> None | Raise e g' \<Rightarrow> None)"

fun first_values :: "('g \<Rightarrow> 'g step) \<Rightarrow> nat \<Rightarrow> 'g \<Rightarrow> pynum list" where
  "first_values nxt 0 g = []"
| "first_values nxt (Suc n) g =
     (case nxt g of Yield v g' \<Rightarrow> v # first_values nxt n g' | Stop g' \<Rightarrow> [] | Raise e g' \<Rightarrow> [])"

fun gen_after :: "('g \<Rightarrow> 'g step) \<Rightarrow> nat \<Rightarrow> 'g \<Rightarrow> 'g" where
  "gen_after nxt 0 g = g"
| "gen_after nxt (Suc n) g =
     (case nxt g of Yield v g' \<Rightarrow> gen_after nxt n g' | Stop g' \<Rightarrow> g' | Raise e g' \<Rightarrow> g')"

section \<open>The retry decorator (resilience/retry.py)\<close>

record 'g RetryOnException =
  max_retries :: int
  retry_on_exceptions :: "exc_class list"
  backoff_strategy :: "'g BackoffStrategy"

text \<open>
  \<open>__init__\<close>. An argument left out is \<open>None\<close>. \<open>uniform\<close> stands for \<open>random.uniform\<close>,
  the random source of the default strategy.
\<close>

definition RetryOnException_init ::
  "(nat \<Rightarrow> pynum \<Rightarrow> pynum \<Rightarrow> pynum) \<Rightarrow> int \<Rightarrow> exc_class list option \<Rightarrow> 'g BackoffStrategy option
     \<Rightarrow> 'g RetryOnException" where
  "RetryOnException_init uniform mr roe bs =
     \<lparr> max_retries = mr,
       retry_on_exceptions =
         (case roe of None \<Rightarrow> [Exception] | Some cs \<Rightarrow> (if cs = [] then [Exception] else cs)),
       backoff_strategy =
         (case bs of
            Some b \<Rightarrow> b
          | None \<Rightarrow> WithJitter (ExponentialBackoffWithJitter_init (PInt 1) (PInt 0) (PInt 30) uniform)) \<rparr>"

text \<open>\<open>except classes as e\<close> handles \<open>e\<close> when it is an instance of one of the classes.\<close>

definition handles :: "exc_class list \<Rightarrow> exn \<Rightarrow> bool" where
  "handles classes e = list_ex (issubclass (exc_type e)) classes"

text \<open>
  How a call of the wrapped function ends: with the operation's result, or with an
  exception, tagged by the statement that raised it.
\<close>

datatype raise_site =
    Uncaught      \<comment> \<open>raised by the operation and not handled by the \<open>except\<close> clause\<close>
  | Reraised      \<comment> \<open>\<open>raise e\<close> in the handler, at \<open>attempt_number == self.max_retries\<close>\<close>
  | InStrategy    \<comment> \<open>raised by the strategy's generator in the loop header\<close>
  | InFormat      \<comment> \<open>raised by formatting \<open>{wait:.2f}\<close> for the log message\<close>
  | InSleep       \<comment> \<open>raised by \<open>time.sleep(wait)\<close>\<close>
  | AfterLoop     \<comment> \<open>the \<open>raise Exception(...)\<close> behind the loop\<close>

datatype 'a outcome = Returned 'a | Raised raise_site exn

definition critical_bug :: exn where
  "critical_bug = Exn Exception ''Critical bug in RetryOnException. This line should never be executed.''"

text \<open>
  What is observed of one call: how it ended, how often the operation was invoked, the
  lengths passed to \<open>time.sleep\<close> that returned, and the states left behind.
\<close>

record ('a, 's, 'g) run =
  outcome :: "'a outcome"
  calls :: nat
  sleeps :: "pynum list"
  op_state :: 's
  gen_state :: "'g generator"

text \<open>
  The \<open>for i, wait in enumerate(self.backoff_strategy())\<close> loop of \<open>wrapped\<close>, entered
  with index \<open>i\<close>. The operation is a function of its own state. \<open>None\<close> is a loop that
  does not end. The two calls of \<open>logger.debug\<close> have no effect on the run; the argument
  of the second one is formatted first.
\<close>

partial_function (option) retry_loop ::
  "(pynum \<Rightarrow> exn option) \<Rightarrow> int \<Rightarrow> exc_class list \<Rightarrow> ('s \<Rightarrow> (exn + 'a) \<times> 's) \<Rightarrow> int \<Rightarrow> 'g generator
     \<Rightarrow> 's \<Rightarrow> nat \<Rightarrow> pynum list \<Rightarrow> ('a, 's, 'g) run option" where
  "retry_loop os_sleep mr roe func i g s n ws =
     (case gen_next g of
        Stop g' \<Rightarrow>
          Some \<lparr> outcome = Raised AfterLoop critical_bug, calls = n, sleeps = ws, op_state = s, gen_state = g' \<rparr>
      | Raise e g' \<Rightarrow>
          Some \<lparr> outcome = Raised InStrategy e, calls = n, sleeps = ws, op_state = s, gen_state = g' \<rparr>
      | Yield wait g' \<Rightarrow>
          (let attempt_number = i + 1 in
           case func s of
             (Inr r, s') \<Rightarrow>
               Some \<lparr> outcome = Returned r, calls = n + 1, sleeps = ws, op_state = s', gen_state = g' \<rparr>
           | (Inl e, s') \<Rightarrow>
               (if handles roe e then
                  (if attempt_number = mr then
                     Some \<lparr> outcome = Raised Reraised e, calls = n + 1, sleeps = ws, op_state = s', gen_state = g' \<rparr>
                   else
                     (case format_wait wait of
                        Inl err \<Rightarrow>
                          Some \<lparr> outcome = Raised InFormat err, calls = n + 1, sleeps = ws, op_state = s', gen_state = g' \<rparr>
                      | Inr u \<Rightarrow>
                          (case time_sleep os_sleep wait of
                             Inl err \<Rightarrow>
                               Some \<lparr> outcome = Raised InSleep err, calls = n + 1, sleeps = ws, op_state = s', gen_state = g' \<rparr>
                           | Inr u' \<Rightarrow> retry_loop os_sleep mr roe func (i + 1) g' s' (n + 1) (ws @ [wait]))))
                else
                  Some \<lparr> outcome = Raised Uncaught e, calls = n + 1, sleeps = ws, op_state = s', gen_state = g' \<rparr>)))"

declare retry_loop.simps [code]

definition wrapped ::
  "(pynum \<Rightarrow> exn option) \<Rightarrow> 'g RetryOnException \<Rightarrow> ('s \<Rightarrow> (exn + 'a) \<times> 's) \<Rightarrow> 's \<Rightarrow> ('a, 's, 'g) run option" where
  "wrapped os_sleep self func s =
     retry_loop os_sleep (max_retries self) (retry_on_exceptions self) func 0
       (strategy_call (backoff_strategy self)) s 0 []"

text \<open>
  The operation's state after \<open>k\<close> invocations, and what invocation number \<open>k\<close> (counted
  from 0) does.
\<close>

fun op_after :: "('s \<Rightarrow> (exn + 'a) \<times> 's) \<Rightarrow> nat \<Rightarrow> 's \<Rightarrow> 's" where
  "op_after func 0 s = s"
| "op_after func (Suc k) s = op_after func k (snd (func s))"

definition attempt :: "('s \<Rightarrow> (exn + 'a) \<times> 's) \<Rightarrow> nat \<Rightarrow> 's \<Rightarrow> exn + 'a" where
  "attempt func k s = fst (func (op_after func k s))"

text \<open>
  \<open>explains os_sleep roe final res wv out\<close>: the way \<open>out\<close> a call ended is the one the loop
  body prescribes for an iteration whose attempt did \<open>res\<close>, for which the generator had
  yielded \<open>wv\<close>, and which was (\<open>final\<close>) or was not the attempt number \<open>max_retries\<close>.
\<close>

fun explains ::
  "(pynum \<Rightarrow> exn option) \<Rightarrow> exc_class list \<Rightarrow> bool \<Rightarrow> exn + 'a \<Rightarrow> pynum option \<Rightarrow> 'a outcome \<Rightarrow> bool" where
  "explains os_sleep roe final res wv (Returned x) = (res = Inr x)"
| "explains os_sleep roe final res wv (Raised Uncaught e) = (res = Inl e \<and> \<not> handles roe e)"
| "explains os_sleep roe final res wv (Raised Reraised e) = (res = Inl e \<and> handles roe e \<and> final)"
| "explains os_sleep roe final res wv (Raised InFormat err) =
     (case res of Inr x \<Rightarrow> False
      | Inl e \<Rightarrow> handles roe e \<and> \<not> final
          \<and> (case wv of None \<Rightarrow> False | Some v \<Rightarrow> format_wait v = Inl err))"
| "explains os_sleep roe final res wv (Raised InSleep err) =
     (case res of Inr x \<Rightarrow> False
      | Inl e \<Rightarrow> handles roe e \<and> \<not> final
          \<and> (case wv of None \<Rightarrow> False
              | Some v \<Rightarrow> format_wait v = Inr () \<and> time_sleep os_sleep v = Inl err))"
| "explains os_sleep roe final res wv (Raised InStrategy e) = False"
| "explains os_sleep roe final res wv (Raised AfterLoop e) = False"

section \<open>Fixtures of the test suite (tests/test_retry.py, tests/test_backoff.py)\<close>

text \<open>\<open>_NoWait\<close>: the strategy whose generators yield 0 for ever.\<close>

definition NoWait :: "unit BackoffStrategy" where
  "NoWait = Custom (\<lambda>u. Yield (PInt 0) u) ()"

text \<open>
  \<open>WorksOnNthAttempt(goal, error_gen).__call__\<close> without its decorator (\<open>goal\<close> is the
  field \<open>n\<close>): its state is the field \<open>attempts\<close>,
  which starts at 1. The default \<open>error_gen\<close> is \<open>failed\<close>; its message writes the number
  in tally marks instead of decimal digits.
\<close>

definition WorksOnNthAttempt_call ::
  "int \<Rightarrow> (int \<Rightarrow> exn) \<Rightarrow> 'a \<Rightarrow> int \<Rightarrow> (exn + 'a \<times> int) \<times> int" where
  "WorksOnNthAttempt_call goal error_gen arg attempts =
     (if attempts = goal then (Inr (arg, attempts), attempts)
      else (Inl (error_gen attempts), attempts + 1))"

definition failed :: "int \<Rightarrow> exn" where
  "failed i = Exn ValueError (''Failed '' @ replicate (nat i) (CHR ''|'') @ '' time[s]'')"

definition missing_file :: "int \<Rightarrow> exn" where
  "missing_file i = Exn FileNotFoundError (''Failed '' @ replicate (nat i) (CHR ''|'') @ '' time[s]'')"

text \<open>An operation that raises the same \<open>ValueError\<close> at every invocation.\<close>

definition always_fails :: "unit \<Rightarrow> (exn + unit) \<times> unit" where
  "always_fails u = (Inl (failed 1), u)"

text \<open>An injected random source in the style of the tests' lambdas: the middle of the range.\<close>

definition half :: "nat \<Rightarrow> pynum \<Rightarrow> pynum \<Rightarrow> pynum" where
  "half k lo hi = PFloat ((num_val lo + num_val hi) / 2)"

text \<open>A strategy in the style of \<open>_NoWait\<close> that yields the same value for ever.\<close>

definition ConstantWait :: "pynum \<Rightarrow> unit BackoffStrategy" where
  "ConstantWait w = Custom (\<lambda>u. Yield w u) ()"

text \<open>An operating system that pauses for any length up to a limit and refuses a longer one.\<close>

definition os_sleep_upto :: "real \<Rightarrow> pynum \<Rightarrow> exn option" where
  "os_sleep_upto limit w =
     (if num_val w \<le> limit then None else Some (Exn OSError ''[Errno 22] Invalid argument''))"

text \<open>A strategy that violates the interface: its generators are exhausted at once.\<close>

definition Exhausted :: "unit BackoffStrategy" where
  "Exhausted = Custom (\<lambda>u. Stop u) ()"

section \<open>Properties of the backoff strategies\<close>

subsection \<open>Auxiliary facts\<close>

lemma num_val_py_min: "num_val (py_min a b) = min (num_val a) (num_val b)"
  by (simp add: py_min_def py_lt_def)

lemma num_val_py_max: "num_val (py_max a b) = max (num_val a) (num_val b)"
  by (simp add: py_max_def py_lt_def)

lemma nth_value_0: "nth_value nxt 0 g = (case nxt g of Yield v g' \<Rightarrow> Some v | Stop g' \<Rightarrow> None | Raise e g' \<Rightarrow> None)"
  by (simp add: nth_value_def)

lemma nth_value_Suc:
  "nth_value nxt (Suc n) g = (case nxt g of Yield v g' \<Rightarrow> nth_value nxt n g' | Stop g' \<Rightarrow> None | Raise e g' \<Rightarrow> None)"
  by (simp add: nth_value_def split: step.splits)

lemma eb_produce_int:
  assumes "base self = PInt b" and "0 \<le> counter self"
  shows "eb_produce self =
     Yield (py_max (min_wait_seconds self) (py_min (PInt (b * 2 ^ nat (counter self))) (max_wait_seconds self)))
       (self, AtYield)"
  using assms by (simp add: eb_produce_def)

lemma eb_produce_float: "base self = PFloat x \<Longrightarrow> \<exists>e. eb_produce self = Raise e (self, Finished)"
  by (simp add: eb_produce_def)

lemma pull_eb_AtYield:
  assumes "base self = PInt b" and "0 \<le> counter self"
  shows "pull eb_next n (self, AtYield) =
     Yield (py_max (min_wait_seconds self)
              (py_min (PInt (b * 2 ^ nat (counter self + int n + 1))) (max_wait_seconds self)))
       (self \<lparr> counter := counter self + int n + 1 \<rparr>, AtYield)"
  using assms
proof (induction n arbitrary: self)
  case 0
  then show ?case by (simp add: eb_produce_int)
next
  case (Suc n)
  let ?s = "self \<lparr> counter := counter self + 1 \<rparr>"
  have step: "eb_next (self, AtYield) = Yield (py_max (min_wait_seconds self)
              (py_min (PInt (b * 2 ^ nat (counter self + 1))) (max_wait_seconds self))) (?s, AtYield)"
    using Suc.prems by (simp add: eb_produce_int)
  have "base ?s = PInt b" "0 \<le> counter ?s" using Suc.prems by simp_all
  from Suc.IH [OF this] step show ?case by (simp add: add.commute add.left_commute)
qed

lemma pull_eb_Start:
  assumes "base self = PInt b" and "0 \<le> counter self"
  shows "pull eb_next n (self, Start) =
     Yield (py_max (min_wait_seconds self)
              (py_min (PInt (b * 2 ^ nat (counter self + int n))) (max_wait_seconds self)))
       (self \<lparr> counter := counter self + int n \<rparr>, AtYield)"
proof (cases n)
  case 0
  then show ?thesis using assms by (simp add: eb_produce_int)
next
  case (Suc k)
  have "eb_next (self, Start) = Yield (py_max (min_wait_seconds self)
              (py_min (PInt (b * 2 ^ nat (counter self))) (max_wait_seconds self))) (self, AtYield)"
    using assms by (simp add: eb_produce_int)
  then show ?thesis using Suc pull_eb_AtYield [OF assms, of k] by (simp add: add.commute add.left_commute)
qed

lemma nth_value_eb_float: "base self = PFloat x \<Longrightarrow> pos \<noteq> Finished \<Longrightarrow> nth_value eb_next n (self, pos) = None"
  by (cases n; cases pos) (simp_all add: nth_value_def eb_produce_def)

lemma nth_value_eb_int:
  assumes "b = PInt i"
  shows "nth_value eb_next n (ExponentialBackoff_init b mn mx, Start) =
           Some (py_max mn (py_min (PInt (i * 2 ^ n)) mx))"
  using pull_eb_Start [of "ExponentialBackoff_init b mn mx" i n] assms
  by (simp add: nth_value_def ExponentialBackoff_init_def)


lemma clamp_mono:
  fixes x y lo hi :: real
  assumes "x \<le> y"
  shows "max lo (min x hi) \<le> max lo (min y hi)"
  using assms by (simp add: max_def min_def)

subsection \<open>ExponentialBackoff\<close>

text \<open>
  C1. The claim is that for every positive number \<open>base\<close> the value number \<open>n\<close> of a fresh
  strategy is \<open>clamp(base * 2^n, minWait, maxWait)\<close>. For an \<open>int\<close> base this is
  \<open>nth_value_eb_int\<close> above. For a \<open>float\<close> base, which the constructor's signature
  \<open>base: float | int\<close> admits, the shift raises: with \<open>base = 0.5\<close> the first \<open>next\<close>
  ends in \<open>TypeError\<close> and no value is produced.
\<close>

theorem C1_float_base_raises:
  "pull eb_next 0 (ExponentialBackoff_init (PFloat (1/2)) (PInt 0) (PInt 30), Start) =
     Raise (Exn TypeError ''unsupported operand type(s) for <<: float and int'')
       (ExponentialBackoff_init (PFloat (1/2)) (PInt 0) (PInt 30), Finished)"
  by (simp add: ExponentialBackoff_init_def eb_produce_def)

text \<open>
  C5, as stated, at a fresh instance: the first value of a sequence is produced and the
  counter of the instance is still 0, not 1. The increment stands behind the \<open>yield\<close>, so
  it is executed when the sequence is resumed for its next value.
\<close>

theorem C5_counterexample:
  "counter (fst (step_state (eb_next (ExponentialBackoff_init (PInt 1) (PInt 0) (PInt 30), Start))))
     \<noteq> counter (ExponentialBackoff_init (PInt 1) (PInt 0) (PInt 30)) + 1"
  by (simp add: ExponentialBackoff_init_def eb_produce_def)

text \<open>
  C5, amended. The counter belongs to the instance. For an instance with an \<open>int\<close> base
  whose counter is \<open>c \<ge> 0\<close>: the first \<open>next\<close> of any new sequence yields the value for
  \<open>c\<close> (it continues from the counter as it is, not from 0) and leaves the instance
  unchanged; a \<open>next\<close> on any sequence that is suspended at its \<open>yield\<close> sets the
  instance's counter to \<open>c + 1\<close> and yields the value for \<open>c + 1\<close>; hence a new sequence that
  has produced \<open>n + 1\<close> values has advanced the counter by \<open>n\<close>.
\<close>

theorem C5_counter_on_instance:
  assumes "base self = PInt b" and "0 \<le> counter self"
  shows "eb_next (self, Start) =
           Yield (py_max (min_wait_seconds self)
                    (py_min (PInt (b * 2 ^ nat (counter self))) (max_wait_seconds self)))
             (self, AtYield)
       \<and> eb_next (self, AtYield) =
           Yield (py_max (min_wait_seconds self)
                    (py_min (PInt (b * 2 ^ nat (counter self + 1))) (max_wait_seconds self)))
             (self \<lparr> counter := counter self + 1 \<rparr>, AtYield)
       \<and> pull eb_next n (self, Start) =
           Yield (py_max (min_wait_seconds self)
                    (py_min (PInt (b * 2 ^ nat (counter self + int n))) (max_wait_seconds self)))
             (self \<lparr> counter := counter self + int n \<rparr>, AtYield)"
proof (intro conjI)
  show "eb_next (self, Start) =
           Yield (py_max (min_wait_seconds self)
                    (py_min (PInt (b * 2 ^ nat (counter self))) (max_wait_seconds self)))
             (self, AtYield)"
    using assms by (simp add: eb_produce_int)
  show "eb_next (self, AtYield) =
           Yield (py_max (min_wait_seconds self)
                    (py_min (PInt (b * 2 ^ nat (counter self + 1))) (max_wait_seconds self)))
             (self \<lparr> counter := counter self + 1 \<rparr>, AtYield)"
    using assms by (simp add: eb_produce_int)
  show "pull eb_next n (self, Start) =
           Yield (py_max (min_wait_seconds self)
                    (py_min (PInt (b * 2 ^ nat (counter self + int n))) (max_wait_seconds self)))
             (self \<lparr> counter := counter self + int n \<rparr>, AtYield)"
    using assms by (rule pull_eb_Start)
qed

theorem C5_counter_on_instance_witness:
  "eb_next (\<lparr> base = PInt 1, min_wait_seconds = PInt 0, max_wait_seconds = PInt 10, counter = 2 \<rparr>, Start) =
     Yield (PInt 4) (\<lparr> base = PInt 1, min_wait_seconds = PInt 0, max_wait_seconds = PInt 10, counter = 2 \<rparr>, AtYield)
   \<and> eb_next (\<lparr> base = PInt 1, min_wait_seconds = PInt 0, max_wait_seconds = PInt 10, counter = 2 \<rparr>, AtYield) =
     Yield (PInt 8) (\<lparr> base = PInt 1, min_wait_seconds = PInt 0, max_wait_seconds = PInt 10, counter = 3 \<rparr>, AtYield)
   \<and> pull eb_next 2 (\<lparr> base = PInt 1, min_wait_seconds = PInt 0, max_wait_seconds = PInt 10, counter = 2 \<rparr>, Start) =
     Yield (PInt 10) (\<lparr> base = PInt 1, min_wait_seconds = PInt 0, max_wait_seconds = PInt 10, counter = 4 \<rparr>, AtYield)"
  using C5_counter_on_instance
    [of "\<lparr> base = PInt 1, min_wait_seconds = PInt 0, max_wait_seconds = PInt 10, counter = 2 \<rparr>" 1 2]
  by (simp add: py_max_def py_min_def py_lt_def)

text \<open>
  C7. For a positive base and \<open>minWait \<le> maxWait\<close>, of any two values produced by one
  sequence of a fresh strategy the later one is at least the earlier one, and once a value
  equals \<open>maxWait\<close> every later value equals \<open>maxWait\<close>. With an \<open>int\<close> base every
  \<open>next\<close> produces a value.
\<close>

theorem C7_nondecreasing_then_constant:
  assumes "0 < num_val b" and "num_val mn \<le> num_val mx"
  shows "(\<forall>n m v w. n \<le> m
            \<and> nth_value eb_next n (ExponentialBackoff_init b mn mx, Start) = Some v
            \<and> nth_value eb_next m (ExponentialBackoff_init b mn mx, Start) = Some w
            \<longrightarrow> num_val v \<le> num_val w \<and> (num_val v = num_val mx \<longrightarrow> num_val w = num_val mx))
       \<and> (\<forall>i n. b = PInt i \<longrightarrow> nth_value eb_next n (ExponentialBackoff_init b mn mx, Start) \<noteq> None)"
proof (cases b)
  case (PFloat x)
  then have "nth_value eb_next n (ExponentialBackoff_init b mn mx, Start) = None" for n
    by (simp add: nth_value_eb_float ExponentialBackoff_init_def)
  with PFloat show ?thesis by simp
next
  case (PInt i)
  with assms(1) have ipos: "0 < i" by simp
  have val: "nth_value eb_next n (ExponentialBackoff_init b mn mx, Start) =
               Some (py_max mn (py_min (PInt (i * 2 ^ n)) mx))" for n
    using PInt by (rule nth_value_eb_int)
  have mono: "num_val (py_max mn (py_min (PInt (i * 2 ^ n)) mx))
                \<le> num_val (py_max mn (py_min (PInt (i * 2 ^ m)) mx))" if "n \<le> m" for n m
  proof -
    from that have "(2::int) ^ n \<le> 2 ^ m" by (simp add: power_increasing)
    with ipos have "i * 2 ^ n \<le> i * 2 ^ m" by simp
    then have "(of_int (i * 2 ^ n) :: real) \<le> of_int (i * 2 ^ m)" by (simp only: of_int_le_iff)
    then show ?thesis by (simp only: num_val_py_max num_val_py_min num_val.simps clamp_mono)
  qed
  have upper: "num_val (py_max mn (py_min (PInt (i * 2 ^ m)) mx)) \<le> num_val mx" for m
    using assms(2) by (simp add: num_val_py_max num_val_py_min)
  show ?thesis
  proof (intro conjI allI impI)
    fix n m v w
    assume h: "n \<le> m
            \<and> nth_value eb_next n (ExponentialBackoff_init b mn mx, Start) = Some v
            \<and> nth_value eb_next m (ExponentialBackoff_init b mn mx, Start) = Some w"
    then have v: "v = py_max mn (py_min (PInt (i * 2 ^ n)) mx)"
      and w: "w = py_max mn (py_min (PInt (i * 2 ^ m)) mx)" by (simp_all add: val)
    from h mono v w show le: "num_val v \<le> num_val w" by simp
    assume "num_val v = num_val mx"
    with le upper [of m] w show "num_val w = num_val mx" by simp
  next
    fix j n
    show "nth_value eb_next n (ExponentialBackoff_init b mn mx, Start) \<noteq> None" by (simp add: val)
  qed
qed

theorem C7_nondecreasing_then_constant_witness:
  "nth_value eb_next 1 (ExponentialBackoff_init (PInt 1) (PInt 3) (PInt 5), Start) = Some (PInt 3)
   \<and> nth_value eb_next 3 (ExponentialBackoff_init (PInt 1) (PInt 3) (PInt 5), Start) = Some (PInt 5)
   \<and> nth_value eb_next 4 (ExponentialBackoff_init (PInt 1) (PInt 3) (PInt 5), Start) = Some (PInt 5)
   \<and> (1::nat) \<le> 3 \<and> (3::nat) \<le> 4
   \<and> num_val (PInt 3) \<le> num_val (PInt 5)
   \<and> num_val (PInt 5) \<le> num_val (PInt 5)
   \<and> num_val (PInt 5) = num_val (PInt 5)"
proof -
  have v1: "nth_value eb_next 1 (ExponentialBackoff_init (PInt 1) (PInt 3) (PInt 5), Start) = Some (PInt 3)"
    by (simp add: nth_value_eb_int [of _ 1] py_max_def py_min_def py_lt_def)
  have v3: "nth_value eb_next 3 (ExponentialBackoff_init (PInt 1) (PInt 3) (PInt 5), Start) = Some (PInt 5)"
    by (simp add: nth_value_eb_int [of _ 1] py_max_def py_min_def py_lt_def)
  have v4: "nth_value eb_next 4 (ExponentialBackoff_init (PInt 1) (PInt 3) (PInt 5), Start) = Some (PInt 5)"
    by (simp add: nth_value_eb_int [of _ 1] py_max_def py_min_def py_lt_def)
  have "0 < num_val (PInt 1)" and "num_val (PInt 3) \<le> num_val (PInt 5)" by simp_all
  from C7_nondecreasing_then_constant [OF this] v1 v3 v4 show ?thesis by simp
qed


subsection \<open>The test suite's sequences\<close>

lemma test_strategy_generates_increasing_interval_maximums:
  "first_values eb_next 5 (ExponentialBackoff_init (PInt 1) (PInt 0) (PInt 100), Start) =
     [PInt 1, PInt 2, PInt 4, PInt 8, PInt 16]"
  by (simp add: eval_nat_numeral ExponentialBackoff_init_def eb_produce_def py_max_def py_min_def py_lt_def
        Let_def)

lemma test_strategy_respects_minimum_and_maximum_wait_times:
  "first_values eb_next 5 (ExponentialBackoff_init (PInt 1) (PInt 3) (PInt 5), Start) =
     [PInt 3, PInt 3, PInt 4, PInt 5, PInt 5]"
  by (simp add: eval_nat_numeral ExponentialBackoff_init_def eb_produce_def py_max_def py_min_def py_lt_def
        Let_def)

lemma test_jitter_respects_minimum_wait_time:
  "first_values jitter_next 3
     (ExponentialBackoffWithJitter_init (PInt 1) (PInt 1) (PInt 5) (\<lambda>k mn mx. PInt (- 1)), Start) =
     [PInt 1, PInt 1, PInt 1]"
  by (simp add: eval_nat_numeral ExponentialBackoffWithJitter_init_def ExponentialBackoff_init_def
        jitter_next_def eb_produce_def py_max_def py_min_def py_lt_def Let_def)

subsection \<open>ExponentialBackoffWithJitter\<close>

lemma eb_next_yield_bounds:
  assumes "eb_next (self, pos) = Yield u g'"
  shows "min_wait_seconds (fst g') = min_wait_seconds self
       \<and> max_wait_seconds (fst g') = max_wait_seconds self
       \<and> num_val (min_wait_seconds self) \<le> num_val u
       \<and> (num_val (min_wait_seconds self) \<le> num_val (max_wait_seconds self)
            \<longrightarrow> num_val u \<le> num_val (max_wait_seconds self))"
  using assms
  by (cases pos)
     (auto simp: eb_produce_def num_val_py_max num_val_py_min split: sum.splits)

lemma nth_value_eb_bounds:
  assumes "nth_value eb_next n (self, pos) = Some u"
    and "num_val (min_wait_seconds self) \<le> num_val (max_wait_seconds self)"
  shows "num_val (min_wait_seconds self) \<le> num_val u \<and> num_val u \<le> num_val (max_wait_seconds self)"
  using assms
proof (induction n arbitrary: self pos)
  case 0
  then obtain g' where "eb_next (self, pos) = Yield u g'"
    by (auto simp: nth_value_0 split: step.splits)
  from eb_next_yield_bounds [OF this] "0.prems"(2) show ?case by simp
next
  case (Suc n)
  then obtain v s' p' where st: "eb_next (self, pos) = Yield v (s', p')"
    and rest: "nth_value eb_next n (s', p') = Some u"
    by (auto simp: nth_value_Suc split: step.splits)
  from eb_next_yield_bounds [OF st] have "min_wait_seconds s' = min_wait_seconds self"
    and "max_wait_seconds s' = max_wait_seconds self" by simp_all
  with Suc.IH [OF rest] Suc.prems(2) show ?case by simp
qed

lemma nth_value_jitter:
  "nth_value jitter_next n (self, pos) =
     map_option (\<lambda>u. py_max (jitter_min_wait_seconds self)
                       (random_number_gen self (draws self + n) (PInt 0) u))
       (nth_value eb_next n (exponential_backoff self, pos))"
proof (induction n arbitrary: self pos)
  case 0
  show ?case
    by (cases pos) (auto simp: nth_value_0 jitter_next_def split: step.splits)
next
  case (Suc n)
  show ?case
  proof (cases "pos = Finished")
    case True
    then show ?thesis by (simp add: nth_value_Suc jitter_next_def)
  next
    case False
    show ?thesis
    proof (cases "eb_next (exponential_backoff self, pos)")
      case (Yield u g')
      obtain eb p where g': "g' = (eb, p)" by (cases g')
      let ?self' = "self \<lparr> exponential_backoff := eb, draws := draws self + 1 \<rparr>"
      have "jitter_next (self, pos) =
              Yield (py_max (jitter_min_wait_seconds self)
                       (random_number_gen self (draws self) (PInt 0) u)) (?self', p)"
        using False Yield g' by (simp add: jitter_next_def)
      then have "nth_value jitter_next (Suc n) (self, pos) = nth_value jitter_next n (?self', p)"
        by (simp add: nth_value_Suc)
      also have "\<dots> = map_option (\<lambda>u. py_max (jitter_min_wait_seconds self)
                       (random_number_gen self (draws self + Suc n) (PInt 0) u))
                     (nth_value eb_next n (eb, p))"
        by (simp add: Suc.IH)
      also have "nth_value eb_next n (eb, p) = nth_value eb_next (Suc n) (exponential_backoff self, pos)"
        using Yield g' by (simp add: nth_value_Suc)
      finally show ?thesis .
    next
      case (Stop g')
      then show ?thesis using False by (cases g') (simp add: nth_value_Suc jitter_next_def)
    next
      case (Raise e g')
      then show ?thesis using False by (cases g') (simp add: nth_value_Suc jitter_next_def)
    qed
  qed
qed

text \<open>
  C6. Value number \<open>n\<close> of a sequence of a fresh jitter strategy is
  \<open>max(minWait, rng(0, u))\<close>, where \<open>u\<close> is value number \<open>n\<close> of a fresh ExponentialBackoff
  with the same base and bounds and \<open>rng(0, u)\<close> is the draw made for it (there is a value
  exactly when there is an underlying one). If that draw keeps the random source's contract,
  \<open>0 \<le> rng(0, u) < u\<close>, and \<open>0 \<le> minWait \<le> maxWait\<close>, then the value \<open>v\<close> satisfies
  \<open>minWait \<le> v\<close>, \<open>v < u\<close> or \<open>v = minWait\<close>, and \<open>v \<le> maxWait\<close>.
\<close>

theorem C6_jitter_values:
  "nth_value jitter_next n (ExponentialBackoffWithJitter_init b mn mx rng, Start) =
     map_option (\<lambda>u. py_max mn (rng n (PInt 0) u))
       (nth_value eb_next n (ExponentialBackoff_init b mn mx, Start))
   \<and> (\<forall>u v. nth_value eb_next n (ExponentialBackoff_init b mn mx, Start) = Some u
         \<and> nth_value jitter_next n (ExponentialBackoffWithJitter_init b mn mx rng, Start) = Some v
         \<and> num_val (PInt 0) \<le> num_val (rng n (PInt 0) u) \<and> num_val (rng n (PInt 0) u) < num_val u
         \<and> num_val mn \<le> num_val mx \<and> 0 \<le> num_val mn
         \<longrightarrow> num_val mn \<le> num_val v
           \<and> (num_val v < num_val u \<or> num_val v = num_val mn)
           \<and> num_val v \<le> num_val mx)"
proof -
  let ?J = "ExponentialBackoffWithJitter_init b mn mx rng"
  let ?E = "ExponentialBackoff_init b mn mx"
  have eq: "nth_value jitter_next n (?J, Start) =
     map_option (\<lambda>u. py_max mn (rng n (PInt 0) u)) (nth_value eb_next n (?E, Start))"
    using nth_value_jitter [of n ?J Start] by (simp add: ExponentialBackoffWithJitter_init_def)
  have bounds: "num_val mn \<le> num_val v \<and> (num_val v < num_val u \<or> num_val v = num_val mn)
           \<and> num_val v \<le> num_val mx"
    if u: "nth_value eb_next n (?E, Start) = Some u"
      and v: "nth_value jitter_next n (?J, Start) = Some v"
      and r: "num_val (rng n (PInt 0) u) < num_val u"
      and le: "num_val mn \<le> num_val mx" for u v
  proof -
    from eq u v have vv: "num_val v = max (num_val mn) (num_val (rng n (PInt 0) u))"
      by (simp add: num_val_py_max)
    from nth_value_eb_bounds [OF u] le have "num_val u \<le> num_val mx"
      by (simp add: ExponentialBackoff_init_def)
    with vv r le show ?thesis by (simp add: max_def)
  qed
  from eq bounds show ?thesis by blast
qed

theorem C6_jitter_values_witness:
  "nth_value eb_next 3 (ExponentialBackoff_init (PInt 1) (PInt 3) (PInt 10), Start) = Some (PInt 8)
   \<and> nth_value jitter_next 3 (ExponentialBackoffWithJitter_init (PInt 1) (PInt 3) (PInt 10) half, Start)
       = Some (PFloat 4)
   \<and> num_val (PInt 0) \<le> num_val (half 3 (PInt 0) (PInt 8)) \<and> num_val (half 3 (PInt 0) (PInt 8)) < num_val (PInt 8)
   \<and> num_val (PInt 3) \<le> num_val (PInt 10) \<and> 0 \<le> num_val (PInt 3)
   \<and> num_val (PInt 3) \<le> num_val (PFloat 4)
   \<and> (num_val (PFloat 4) < num_val (PInt 8) \<or> num_val (PFloat 4) = num_val (PInt 3))
   \<and> num_val (PFloat 4) \<le> num_val (PInt 10)"
proof -
  have u: "nth_value eb_next 3 (ExponentialBackoff_init (PInt 1) (PInt 3) (PInt 10), Start) = Some (PInt 8)"
    by (simp add: nth_value_eb_int [of _ 1] py_max_def py_min_def py_lt_def)
  from C6_jitter_values [of 3 "PInt 1" "PInt 3" "PInt 10" half] u
  show ?thesis by (simp add: half_def py_max_def py_lt_def)
qed

section \<open>Properties of the retry decorator\<close>

subsection \<open>One iteration of the loop, case by case\<close>

lemma time_sleep_returns:
  "time_sleep os_sleep w = Inr () \<longleftrightarrow> in_timestamp_range w \<and> 0 \<le> num_val w \<and> os_sleep w = None"
  by (auto simp: time_sleep_def split: option.splits)

lemma retry_loop_stop:
  assumes "gen_next g = Stop g'"
  shows "retry_loop os_sleep mr roe func i g s n ws =
    Some \<lparr> outcome = Raised AfterLoop critical_bug, calls = n, sleeps = ws, op_state = s, gen_state = g' \<rparr>"
  using assms by (subst retry_loop.simps) simp

lemma retry_loop_raise:
  assumes "gen_next g = Raise e g'"
  shows "retry_loop os_sleep mr roe func i g s n ws =
    Some \<lparr> outcome = Raised InStrategy e, calls = n, sleeps = ws, op_state = s, gen_state = g' \<rparr>"
  using assms by (subst retry_loop.simps) simp

lemma retry_loop_return:
  assumes "gen_next g = Yield w g'" and "func s = (Inr r, s')"
  shows "retry_loop os_sleep mr roe func i g s n ws =
    Some \<lparr> outcome = Returned r, calls = n + 1, sleeps = ws, op_state = s', gen_state = g' \<rparr>"
  using assms by (subst retry_loop.simps) simp

lemma retry_loop_uncaught:
  assumes "gen_next g = Yield w g'" and "func s = (Inl e, s')" and "\<not> handles roe e"
  shows "retry_loop os_sleep mr roe func i g s n ws =
    Some \<lparr> outcome = Raised Uncaught e, calls = n + 1, sleeps = ws, op_state = s', gen_state = g' \<rparr>"
  using assms by (subst retry_loop.simps) simp

lemma retry_loop_reraise:
  assumes "gen_next g = Yield w g'" and "func s = (Inl e, s')" and "handles roe e" and "i + 1 = mr"
  shows "retry_loop os_sleep mr roe func i g s n ws =
    Some \<lparr> outcome = Raised Reraised e, calls = n + 1, sleeps = ws, op_state = s', gen_state = g' \<rparr>"
  using assms by (subst retry_loop.simps) simp

lemma retry_loop_format_fails:
  assumes "gen_next g = Yield w g'" and "func s = (Inl e, s')" and "handles roe e" and "i + 1 \<noteq> mr"
    and "format_wait w = Inl err"
  shows "retry_loop os_sleep mr roe func i g s n ws =
    Some \<lparr> outcome = Raised InFormat err, calls = n + 1, sleeps = ws, op_state = s', gen_state = g' \<rparr>"
  using assms by (subst retry_loop.simps) simp

lemma retry_loop_sleep_fails:
  assumes "gen_next g = Yield w g'" and "func s = (Inl e, s')" and "handles roe e" and "i + 1 \<noteq> mr"
    and "format_wait w = Inr ()" and "time_sleep os_sleep w = Inl err"
  shows "retry_loop os_sleep mr roe func i g s n ws =
    Some \<lparr> outcome = Raised InSleep err, calls = n + 1, sleeps = ws, op_state = s', gen_state = g' \<rparr>"
  using assms by (subst retry_loop.simps) simp

lemma retry_loop_retry:
  assumes "gen_next g = Yield w g'" and "func s = (Inl e, s')" and "handles roe e" and "i + 1 \<noteq> mr"
    and "format_wait w = Inr ()" and "time_sleep os_sleep w = Inr ()"
  shows "retry_loop os_sleep mr roe func i g s n ws =
           retry_loop os_sleep mr roe func (i + 1) g' s' (n + 1) (ws @ [w])"
  using assms by (subst retry_loop.simps) simp

lemma attempt_0: "attempt func 0 s = fst (func s)"
  by (simp add: attempt_def)

lemma attempt_Suc: "attempt func (Suc k) s = attempt func k (snd (func s))"
  by (simp add: attempt_def)

lemma op_after_Suc: "op_after func (Suc k) s = snd (func (op_after func k s))"
  by (induction k arbitrary: s) simp_all

lemma nth_value_shift:
  assumes "gen_next g = Yield w g'"
  shows "nth_value gen_next (Suc j) g = nth_value gen_next j g'"
  using assms by (simp add: nth_value_Suc)

lemma nth_value_gen_after:
  assumes "nth_value nxt n g = Some v"
  shows "nxt (gen_after nxt n g) = Yield v (gen_after nxt (Suc n) g)"
  using assms
proof (induction n arbitrary: g)
  case 0
  then show ?case by (auto simp: nth_value_0 split: step.splits)
next
  case (Suc n)
  then obtain u g' where st: "nxt g = Yield u g'" and rest: "nth_value nxt n g' = Some v"
    by (auto simp: nth_value_Suc split: step.splits)
  from Suc.IH [OF rest] st show ?case by simp
qed

lemma length_first_values:
  assumes "\<forall>j<k. nth_value nxt j g \<noteq> None"
  shows "length (first_values nxt k g) = k"
  using assms
proof (induction k arbitrary: g)
  case 0
  then show ?case by simp
next
  case (Suc k)
  from Suc.prems have "nth_value nxt 0 g \<noteq> None" by simp
  then obtain u g' where st: "nxt g = Yield u g'"
    by (auto simp: nth_value_0 split: step.splits)
  have "\<forall>j<k. nth_value nxt j g' \<noteq> None"
  proof (intro allI impI)
    fix j assume "j < k"
    then have "nth_value nxt (Suc j) g \<noteq> None" using Suc.prems by simp
    with st show "nth_value nxt j g' \<noteq> None" by (simp add: nth_value_Suc)
  qed
  from Suc.IH [OF this] st show ?case by simp
qed

text \<open>
  \<open>k\<close> handled failures in a row, none at the last permitted attempt, each followed by a
  log message that is formatted and a sleep that returns.
\<close>

lemma retry_loop_failures:
  assumes "\<forall>j<k. \<exists>e. attempt func j s = Inl e \<and> handles roe e"
    and "\<forall>j<k. \<exists>v. nth_value gen_next j g = Some v \<and> format_wait v = Inr ()
                  \<and> time_sleep os_sleep v = Inr ()"
    and "\<forall>j<k. i + 1 + int j \<noteq> mr"
  shows "retry_loop os_sleep mr roe func i g s n ws =
           retry_loop os_sleep mr roe func (i + int k) (gen_after gen_next k g) (op_after func k s) (n + k)
             (ws @ first_values gen_next k g)"
  using assms
proof (induction k arbitrary: i g s n ws)
  case 0
  then show ?case by simp
next
  case (Suc k)
  from Suc.prems(2) obtain w where "nth_value gen_next 0 g = Some w"
    and fw: "format_wait w = Inr ()" and sw: "time_sleep os_sleep w = Inr ()"
    by blast
  then obtain g' where st: "gen_next g = Yield w g'"
    by (auto simp: nth_value_0 split: step.splits)
  from Suc.prems(1) obtain e where "attempt func 0 s = Inl e" and h: "handles roe e"
    by blast
  then obtain s' where f: "func s = (Inl e, s')"
    by (cases "func s") (simp add: attempt_0)
  from Suc.prems(3) have ne: "i + 1 \<noteq> mr" by force
  have one: "retry_loop os_sleep mr roe func i g s n ws =
               retry_loop os_sleep mr roe func (i + 1) g' s' (n + 1) (ws @ [w])"
    using st f h ne fw sw by (rule retry_loop_retry)
  have a: "\<forall>j<k. \<exists>e. attempt func j s' = Inl e \<and> handles roe e"
  proof (intro allI impI)
    fix j assume "j < k"
    then have "\<exists>e. attempt func (Suc j) s = Inl e \<and> handles roe e" using Suc.prems(1) by simp
    with f show "\<exists>e. attempt func j s' = Inl e \<and> handles roe e" by (simp add: attempt_Suc)
  qed
  have b: "\<forall>j<k. \<exists>v. nth_value gen_next j g' = Some v \<and> format_wait v = Inr ()
                  \<and> time_sleep os_sleep v = Inr ()"
  proof (intro allI impI)
    fix j assume "j < k"
    then have "\<exists>v. nth_value gen_next (Suc j) g = Some v \<and> format_wait v = Inr ()
                  \<and> time_sleep os_sleep v = Inr ()" using Suc.prems(2) by simp
    with st show "\<exists>v. nth_value gen_next j g' = Some v \<and> format_wait v = Inr ()
                  \<and> time_sleep os_sleep v = Inr ()" by (simp add: nth_value_Suc)
  qed
  have c: "\<forall>j<k. (i + 1) + 1 + int j \<noteq> mr"
  proof (intro allI impI)
    fix j assume "j < k"
    then have "Suc j < Suc k" by simp
    with Suc.prems(3) have "i + 1 + int (Suc j) \<noteq> mr" by blast
    then show "(i + 1) + 1 + int j \<noteq> mr" by simp
  qed
  from Suc.IH [OF a b c, of "n + 1" "ws @ [w]"] one st f
  show ?case by (simp add: add.commute add.left_commute)
qed

lemma nth_value_ConstantWait: "nth_value gen_next j (strategy_call (ConstantWait w)) = Some w"
proof -
  have "nth_value gen_next j (CustomGen (\<lambda>u. Yield w u) ()) = Some w"
    by (induction j) (simp_all add: nth_value_0 nth_value_Suc)
  then show ?thesis by (simp add: ConstantWait_def)
qed

lemma nth_value_NoWait: "nth_value gen_next j (strategy_call NoWait) = Some (PInt 0)"
proof -
  have "nth_value gen_next j (CustomGen (\<lambda>u. Yield (PInt 0) u) ()) = Some (PInt 0)"
    by (induction j) (simp_all add: nth_value_0 nth_value_Suc)
  then show ?thesis by (simp add: NoWait_def)
qed

lemma handles_ValueError: "handles [ValueError] (failed i)"
  by (simp add: handles_def failed_def ValueError_def)

text \<open>The attempt number \<open>max_retries\<close> is reached after handled failures only, and fails.\<close>

lemma wrapped_exhausts_budget:
  assumes "1 \<le> max_retries self"
    and "\<forall>j<nat (max_retries self). \<exists>e. attempt func j s = Inl e \<and> handles (retry_on_exceptions self) e"
    and "\<forall>j<nat (max_retries self) - 1.
           \<exists>v. nth_value gen_next j (strategy_call (backoff_strategy self)) = Some v
              \<and> format_wait v = Inr () \<and> time_sleep os_sleep v = Inr ()"
    and "nth_value gen_next (nat (max_retries self) - 1) (strategy_call (backoff_strategy self)) \<noteq> None"
  shows "\<exists>e. attempt func (nat (max_retries self) - 1) s = Inl e
           \<and> wrapped os_sleep self func s =
               Some \<lparr> outcome = Raised Reraised e, calls = nat (max_retries self),
                      sleeps = first_values gen_next (nat (max_retries self) - 1)
                                 (strategy_call (backoff_strategy self)),
                      op_state = op_after func (nat (max_retries self)) s,
                      gen_state = gen_after gen_next (nat (max_retries self))
                                    (strategy_call (backoff_strategy self)) \<rparr>"
proof -
  let ?g = "strategy_call (backoff_strategy self)"
  let ?mr = "max_retries self"
  let ?roe = "retry_on_exceptions self"
  from assms(1) obtain m where k: "nat ?mr = Suc m" by (cases "nat ?mr") simp_all
  with assms(1) have mr: "?mr = int m + 1" by linarith
  have fails: "\<forall>j<m. \<exists>e. attempt func j s = Inl e \<and> handles ?roe e" using assms(2) k by simp
  have waits: "\<forall>j<m. \<exists>v. nth_value gen_next j ?g = Some v \<and> format_wait v = Inr ()
                  \<and> time_sleep os_sleep v = Inr ()" using assms(3) k by simp
  have budget: "\<forall>j<m. 0 + 1 + int j \<noteq> ?mr" using mr by auto
  have prefix: "retry_loop os_sleep ?mr ?roe func 0 ?g s 0 [] =
      retry_loop os_sleep ?mr ?roe func (0 + int m) (gen_after gen_next m ?g) (op_after func m s) (0 + m)
        ([] @ first_values gen_next m ?g)"
    using fails waits budget by (rule retry_loop_failures)
  from assms(4) k obtain v where "nth_value gen_next m ?g = Some v" by auto
  then have st: "gen_next (gen_after gen_next m ?g) = Yield v (gen_after gen_next (Suc m) ?g)"
    by (rule nth_value_gen_after)
  from assms(2) k obtain e where e: "attempt func m s = Inl e" and h: "handles ?roe e" by auto
  have f: "func (op_after func m s) = (Inl e, op_after func (Suc m) s)"
    using e by (simp add: attempt_def op_after_Suc prod_eq_iff del: op_after.simps)
  have "0 + int m + 1 = ?mr" using mr by simp
  with st f h
  have last: "retry_loop os_sleep ?mr ?roe func (0 + int m) (gen_after gen_next m ?g) (op_after func m s) (0 + m)
        ([] @ first_values gen_next m ?g) =
      Some \<lparr> outcome = Raised Reraised e, calls = (0 + m) + 1, sleeps = [] @ first_values gen_next m ?g,
             op_state = op_after func (Suc m) s, gen_state = gen_after gen_next (Suc m) ?g \<rparr>"
    by (rule retry_loop_reraise)
  from prefix last k e show ?thesis by (simp add: wrapped_def)
qed

subsection \<open>The claims about a call of the wrapped function\<close>

text \<open>
  In the theorems below the strategy keeps the interface's contract as far as the call
  consumes it: each \<open>next\<close> the loop header performs yields a value, and each value the loop
  waits for is one it can wait for: line 86 formats it (\<open>format_wait v = Inr ()\<close>) and
  \<open>time.sleep\<close> returns (\<open>time_sleep os_sleep v = Inr ()\<close>, that is, the value is not
  negative, fits the timestamp type, and the operating system pauses that long). Attempts
  are counted from 0 in \<open>attempt\<close>, so attempt number \<open>k\<close> of the specification is
  \<open>attempt func (k - 1) s\<close>. The loop header takes one value from the generator before
  every attempt, also before the last one; \<open>sleeps\<close> lists the waits actually performed.
\<close>

text \<open>
  C2. With \<open>max_retries \<ge> 1\<close>, if each of the first \<open>max_retries\<close> attempts fails with an
  exception the \<open>except\<close> clause handles, the call invokes the operation exactly
  \<open>max_retries\<close> times and raises, by \<open>raise e\<close>, the very exception of the last attempt.
\<close>

theorem C2_exhausted_budget:
  assumes "1 \<le> max_retries self"
    and "\<forall>j<nat (max_retries self). \<exists>e. attempt func j s = Inl e \<and> handles (retry_on_exceptions self) e"
    and "\<forall>j<nat (max_retries self) - 1.
           \<exists>v. nth_value gen_next j (strategy_call (backoff_strategy self)) = Some v
              \<and> format_wait v = Inr () \<and> time_sleep os_sleep v = Inr ()"
    and "nth_value gen_next (nat (max_retries self) - 1) (strategy_call (backoff_strategy self)) \<noteq> None"
  shows "\<exists>e. attempt func (nat (max_retries self) - 1) s = Inl e
           \<and> wrapped os_sleep self func s =
               Some \<lparr> outcome = Raised Reraised e, calls = nat (max_retries self),
                      sleeps = first_values gen_next (nat (max_retries self) - 1)
                                 (strategy_call (backoff_strategy self)),
                      op_state = op_after func (nat (max_retries self)) s,
                      gen_state = gen_after gen_next (nat (max_retries self))
                                    (strategy_call (backoff_strategy self)) \<rparr>"
  using assms by (rule wrapped_exhausts_budget)

theorem C2_exhausted_budget_witness:
  "attempt (WorksOnNthAttempt_call 10 failed ''fizzbuzz'') 4 1 = Inl (failed 5)
   \<and> wrapped (os_sleep_upto 3600) (RetryOnException_init half 5 (Some [ValueError]) (Some NoWait))
     (WorksOnNthAttempt_call 10 failed ''fizzbuzz'') 1 =
   Some \<lparr> outcome = Raised Reraised (failed 5), calls = 5,
          sleeps = [PInt 0, PInt 0, PInt 0, PInt 0], op_state = 6,
          gen_state = strategy_call NoWait \<rparr>"
proof -
  let ?self = "RetryOnException_init half 5 (Some [ValueError]) (Some NoWait)"
  let ?f = "WorksOnNthAttempt_call 10 failed ''fizzbuzz''"
  have mr: "max_retries ?self = 5" by (simp add: RetryOnException_init_def)
  have a: "1 \<le> max_retries ?self" by (simp add: mr)
  have b: "\<forall>j<nat (max_retries ?self). \<exists>e. attempt ?f j 1 = Inl e \<and> handles (retry_on_exceptions ?self) e"
    by (simp add: RetryOnException_init_def attempt_def WorksOnNthAttempt_call_def handles_ValueError
          less_Suc_eq eval_nat_numeral)
  have c: "\<forall>j<nat (max_retries ?self) - 1.
       \<exists>v. nth_value gen_next j (strategy_call (backoff_strategy ?self)) = Some v
          \<and> format_wait v = Inr () \<and> time_sleep (os_sleep_upto 3600) v = Inr ()"
    by (simp add: RetryOnException_init_def nth_value_NoWait time_sleep_returns os_sleep_upto_def)
  have d: "nth_value gen_next (nat (max_retries ?self) - 1) (strategy_call (backoff_strategy ?self)) \<noteq> None"
    by (simp add: RetryOnException_init_def nth_value_NoWait)
  have e: "attempt ?f 4 1 = Inl (failed 5)"
    by (simp add: attempt_def WorksOnNthAttempt_call_def eval_nat_numeral)
  from C2_exhausted_budget [OF a b c d] e show ?thesis
    by (simp add: mr) (simp add: RetryOnException_init_def NoWait_def WorksOnNthAttempt_call_def eval_nat_numeral)
qed

text \<open>
  C3. If attempt number \<open>k + 1\<close> is made (the \<open>k\<close> before it failed with handled exceptions
  and the budget did not end there) and fails with an exception the \<open>except\<close> clause does not
  handle, that exception leaves the call unchanged: the operation has been invoked \<open>k + 1\<close>
  times, the only sleeps are the \<open>k\<close> between the earlier attempts, and nothing follows.
  For \<open>k = 0\<close> there is no condition on \<open>max_retries\<close> and none on the value the
  generator yielded.
\<close>

theorem C3_unhandled_error_propagates:
  assumes "\<forall>j<k. \<exists>e. attempt func j s = Inl e \<and> handles (retry_on_exceptions self) e"
    and "attempt func k s = Inl e" and "\<not> handles (retry_on_exceptions self) e"
    and "max_retries self < 1 \<or> int k < max_retries self"
    and "\<forall>j<k. \<exists>v. nth_value gen_next j (strategy_call (backoff_strategy self)) = Some v
                  \<and> format_wait v = Inr () \<and> time_sleep os_sleep v = Inr ()"
    and "nth_value gen_next k (strategy_call (backoff_strategy self)) \<noteq> None"
  shows "wrapped os_sleep self func s =
           Some \<lparr> outcome = Raised Uncaught e, calls = Suc k,
                  sleeps = first_values gen_next k (strategy_call (backoff_strategy self)),
                  op_state = op_after func (Suc k) s,
                  gen_state = gen_after gen_next (Suc k) (strategy_call (backoff_strategy self)) \<rparr>
       \<and> length (first_values gen_next k (strategy_call (backoff_strategy self))) = k"
proof -
  let ?g = "strategy_call (backoff_strategy self)"
  let ?mr = "max_retries self"
  let ?roe = "retry_on_exceptions self"
  have budget: "\<forall>j<k. 0 + 1 + int j \<noteq> ?mr" using assms(4) by auto
  have prefix: "retry_loop os_sleep ?mr ?roe func 0 ?g s 0 [] =
      retry_loop os_sleep ?mr ?roe func (0 + int k) (gen_after gen_next k ?g) (op_after func k s) (0 + k)
        ([] @ first_values gen_next k ?g)"
    using assms(1) assms(5) budget by (rule retry_loop_failures)
  from assms(6) obtain v where "nth_value gen_next k ?g = Some v" by auto
  then have st: "gen_next (gen_after gen_next k ?g) = Yield v (gen_after gen_next (Suc k) ?g)"
    by (rule nth_value_gen_after)
  have f: "func (op_after func k s) = (Inl e, op_after func (Suc k) s)"
    using assms(2) by (simp add: attempt_def op_after_Suc prod_eq_iff del: op_after.simps)
  have last: "retry_loop os_sleep ?mr ?roe func (0 + int k) (gen_after gen_next k ?g) (op_after func k s) (0 + k)
        ([] @ first_values gen_next k ?g) =
      Some \<lparr> outcome = Raised Uncaught e, calls = (0 + k) + 1, sleeps = [] @ first_values gen_next k ?g,
             op_state = op_after func (Suc k) s, gen_state = gen_after gen_next (Suc k) ?g \<rparr>"
    using st f assms(3) by (rule retry_loop_uncaught)
  have len: "length (first_values gen_next k ?g) = k"
    by (rule length_first_values) (use assms(5) in auto)
  from prefix last len show ?thesis by (simp add: wrapped_def)
qed

theorem C3_unhandled_error_propagates_witness:
  "wrapped (os_sleep_upto 3600) (RetryOnException_init half 5 (Some [ValueError]) (Some NoWait))
     (WorksOnNthAttempt_call 10 missing_file ''fizzbuzz'') 1 =
   Some \<lparr> outcome = Raised Uncaught (missing_file 1), calls = 1, sleeps = [], op_state = 2,
          gen_state = strategy_call NoWait \<rparr>
   \<and> wrapped (os_sleep_upto 3600) (RetryOnException_init half 5 (Some [ValueError]) (Some NoWait))
     (WorksOnNthAttempt_call 10 (\<lambda>i. if i < 3 then failed i else missing_file i) ''fizzbuzz'') 1 =
   Some \<lparr> outcome = Raised Uncaught (missing_file 3), calls = 3, sleeps = [PInt 0, PInt 0], op_state = 4,
          gen_state = strategy_call NoWait \<rparr>"
proof -
  let ?self = "RetryOnException_init half 5 (Some [ValueError]) (Some NoWait)"
  let ?f = "WorksOnNthAttempt_call 10 missing_file ''fizzbuzz''"
  let ?h = "WorksOnNthAttempt_call 10 (\<lambda>i. if i < 3 then failed i else missing_file i) ''fizzbuzz''"
  have nh: "\<not> handles (retry_on_exceptions ?self) (missing_file i)" for i
    by (simp add: RetryOnException_init_def handles_def missing_file_def ValueError_def
          FileNotFoundError_def OSError_def Exception_def)
  have d: "max_retries ?self < 1 \<or> int k < max_retries ?self" if "k < 5" for k
    using that by (simp add: RetryOnException_init_def)
  have w: "\<forall>j<k. \<exists>v. nth_value gen_next j (strategy_call (backoff_strategy ?self)) = Some v
          \<and> format_wait v = Inr () \<and> time_sleep (os_sleep_upto 3600) v = Inr ()" for k
    by (simp add: RetryOnException_init_def nth_value_NoWait time_sleep_returns os_sleep_upto_def)
  have v: "nth_value gen_next k (strategy_call (backoff_strategy ?self)) \<noteq> None" for k
    by (simp add: RetryOnException_init_def nth_value_NoWait)
  have a0: "\<forall>j<0. \<exists>e. attempt ?f j 1 = Inl e \<and> handles (retry_on_exceptions ?self) e" by simp
  have b0: "attempt ?f 0 1 = Inl (missing_file 1)"
    by (simp add: attempt_def WorksOnNthAttempt_call_def)
  have a2: "\<forall>j<2. \<exists>e. attempt ?h j 1 = Inl e \<and> handles (retry_on_exceptions ?self) e"
    by (simp add: RetryOnException_init_def attempt_def WorksOnNthAttempt_call_def handles_ValueError
          less_Suc_eq eval_nat_numeral)
  have b2: "attempt ?h 2 1 = Inl (missing_file 3)"
    by (simp add: attempt_def WorksOnNthAttempt_call_def eval_nat_numeral)
  have k0: "(0::nat) < 5" and k2: "(2::nat) < 5" by simp_all
  from C3_unhandled_error_propagates [OF a0 b0 nh d [OF k0] w v]
    C3_unhandled_error_propagates [OF a2 b2 nh d [OF k2] w v]
  show ?thesis
    by (simp add: RetryOnException_init_def NoWait_def WorksOnNthAttempt_call_def eval_nat_numeral)
qed

text \<open>
  C4. If attempts \<open>1 .. k - 1\<close> fail with handled exceptions and attempt \<open>k \<le> max_retries\<close>
  returns \<open>r\<close>, the call invokes the operation exactly \<open>k\<close> times and returns \<open>r\<close>; it
  has slept \<open>k - 1\<close> times, once after each failure and not after the success.
\<close>

theorem C4_success_on_attempt_k:
  assumes "1 \<le> k" and "int k \<le> max_retries self"
    and "\<forall>j<k - 1. \<exists>e. attempt func j s = Inl e \<and> handles (retry_on_exceptions self) e"
    and "attempt func (k - 1) s = Inr r"
    and "\<forall>j<k - 1. \<exists>v. nth_value gen_next j (strategy_call (backoff_strategy self)) = Some v
                  \<and> format_wait v = Inr () \<and> time_sleep os_sleep v = Inr ()"
    and "nth_value gen_next (k - 1) (strategy_call (backoff_strategy self)) \<noteq> None"
  shows "wrapped os_sleep self func s =
           Some \<lparr> outcome = Returned r, calls = k,
                  sleeps = first_values gen_next (k - 1) (strategy_call (backoff_strategy self)),
                  op_state = op_after func k s,
                  gen_state = gen_after gen_next k (strategy_call (backoff_strategy self)) \<rparr>
       \<and> length (first_values gen_next (k - 1) (strategy_call (backoff_strategy self))) = k - 1"
proof -
  let ?g = "strategy_call (backoff_strategy self)"
  let ?mr = "max_retries self"
  let ?roe = "retry_on_exceptions self"
  from assms(1) obtain m where k: "k = Suc m" by (cases k) simp_all
  have fails: "\<forall>j<m. \<exists>e. attempt func j s = Inl e \<and> handles ?roe e" using assms(3) k by simp
  have waits: "\<forall>j<m. \<exists>v. nth_value gen_next j ?g = Some v \<and> format_wait v = Inr ()
                  \<and> time_sleep os_sleep v = Inr ()" using assms(5) k by simp
  have budget: "\<forall>j<m. 0 + 1 + int j \<noteq> ?mr" using assms(2) k by auto
  have prefix: "retry_loop os_sleep ?mr ?roe func 0 ?g s 0 [] =
      retry_loop os_sleep ?mr ?roe func (0 + int m) (gen_after gen_next m ?g) (op_after func m s) (0 + m)
        ([] @ first_values gen_next m ?g)"
    using fails waits budget by (rule retry_loop_failures)
  from assms(6) k obtain v where "nth_value gen_next m ?g = Some v" by auto
  then have st: "gen_next (gen_after gen_next m ?g) = Yield v (gen_after gen_next (Suc m) ?g)"
    by (rule nth_value_gen_after)
  have f: "func (op_after func m s) = (Inr r, op_after func (Suc m) s)"
    using assms(4) k by (simp add: attempt_def op_after_Suc prod_eq_iff del: op_after.simps)
  have last: "retry_loop os_sleep ?mr ?roe func (0 + int m) (gen_after gen_next m ?g) (op_after func m s) (0 + m)
        ([] @ first_values gen_next m ?g) =
      Some \<lparr> outcome = Returned r, calls = (0 + m) + 1, sleeps = [] @ first_values gen_next m ?g,
             op_state = op_after func (Suc m) s, gen_state = gen_after gen_next (Suc m) ?g \<rparr>"
    using st f by (rule retry_loop_return)
  have len: "length (first_values gen_next m ?g) = m"
    by (rule length_first_values) (use waits in auto)
  from prefix last len k show ?thesis by (simp add: wrapped_def)
qed

theorem C4_success_on_attempt_k_witness:
  "wrapped (os_sleep_upto 3600) (RetryOnException_init half 5 (Some [ValueError]) (Some NoWait))
     (WorksOnNthAttempt_call 3 failed ''baz'') 1 =
   Some \<lparr> outcome = Returned (''baz'', 3), calls = 3, sleeps = [PInt 0, PInt 0], op_state = 3,
          gen_state = strategy_call NoWait \<rparr>"
proof -
  let ?self = "RetryOnException_init half 5 (Some [ValueError]) (Some NoWait)"
  let ?f = "WorksOnNthAttempt_call 3 failed ''baz''"
  have a: "(1::nat) \<le> 3" and b: "int 3 \<le> max_retries ?self"
    by (simp_all add: RetryOnException_init_def)
  have c: "\<forall>j<3 - 1. \<exists>e. attempt ?f j 1 = Inl e \<and> handles (retry_on_exceptions ?self) e"
    by (simp add: RetryOnException_init_def attempt_def WorksOnNthAttempt_call_def handles_ValueError
          less_Suc_eq eval_nat_numeral)
  have d: "attempt ?f (3 - 1) 1 = Inr (''baz'', 3)"
    by (simp add: attempt_def WorksOnNthAttempt_call_def eval_nat_numeral)
  have e: "\<forall>j<3 - 1. \<exists>v. nth_value gen_next j (strategy_call (backoff_strategy ?self)) = Some v
             \<and> format_wait v = Inr () \<and> time_sleep (os_sleep_upto 3600) v = Inr ()"
    by (simp add: RetryOnException_init_def nth_value_NoWait time_sleep_returns os_sleep_upto_def)
  have f: "nth_value gen_next (3 - 1) (strategy_call (backoff_strategy ?self)) \<noteq> None"
    by (simp add: RetryOnException_init_def nth_value_NoWait)
  from C4_success_on_attempt_k [OF a b c d e f] show ?thesis
    by (simp add: RetryOnException_init_def NoWait_def WorksOnNthAttempt_call_def eval_nat_numeral)
qed

subsection \<open>Termination of the loop\<close>

lemma pull_Stop_no_value: "pull nxt j g = Stop g' \<Longrightarrow> nth_value nxt j g = None"
  by (simp add: nth_value_def)

text \<open>An iteration that does not go round the loop again ends the call as the body prescribes.\<close>

lemma retry_loop_ends_now:
  assumes st: "gen_next g = Yield w g'" and f: "func s = (res, s')"
    and stay: "\<not> (\<exists>e. res = Inl e \<and> handles roe e \<and> i + 1 \<noteq> mr
                   \<and> format_wait w = Inr () \<and> time_sleep os_sleep w = Inr ())"
  shows "\<exists>r. retry_loop os_sleep mr roe func i g s n ws = Some r
           \<and> calls r = n + 1 \<and> op_state r = s'
           \<and> explains os_sleep roe (i + 1 = mr) res (Some w) (outcome r)"
proof (cases res)
  case (Inr x)
  with st f have "retry_loop os_sleep mr roe func i g s n ws =
      Some \<lparr> outcome = Returned x, calls = n + 1, sleeps = ws, op_state = s', gen_state = g' \<rparr>"
    by (simp add: retry_loop_return)
  with Inr show ?thesis by simp
next
  case (Inl e)
  show ?thesis
  proof (cases "handles roe e")
    case False
    with st f Inl have "retry_loop os_sleep mr roe func i g s n ws =
        Some \<lparr> outcome = Raised Uncaught e, calls = n + 1, sleeps = ws, op_state = s', gen_state = g' \<rparr>"
      by (simp add: retry_loop_uncaught)
    with Inl False show ?thesis by simp
  next
    case True
    show ?thesis
    proof (cases "i + 1 = mr")
      case last: True
      with st f Inl True have "retry_loop os_sleep mr roe func i g s n ws =
          Some \<lparr> outcome = Raised Reraised e, calls = n + 1, sleeps = ws, op_state = s', gen_state = g' \<rparr>"
        by (simp add: retry_loop_reraise)
      with Inl True last show ?thesis by simp
    next
      case more: False
      show ?thesis
      proof (cases "format_wait w")
        case fw: (Inl err)
        with st f Inl True more have "retry_loop os_sleep mr roe func i g s n ws =
            Some \<lparr> outcome = Raised InFormat err, calls = n + 1, sleeps = ws, op_state = s', gen_state = g' \<rparr>"
          by (simp add: retry_loop_format_fails)
        with Inl True more fw show ?thesis by simp
      next
        case fw: (Inr u)
        then have fw': "format_wait w = Inr ()" by simp
        with stay Inl True more obtain err where sw: "time_sleep os_sleep w = Inl err"
          by (cases "time_sleep os_sleep w") auto
        with st f Inl True more fw' have "retry_loop os_sleep mr roe func i g s n ws =
            Some \<lparr> outcome = Raised InSleep err, calls = n + 1, sleeps = ws, op_state = s', gen_state = g' \<rparr>"
          by (simp add: retry_loop_sleep_fails)
        with Inl True more fw' sw show ?thesis by simp
      qed
    qed
  qed
qed

text \<open>
  Below \<open>max_retries\<close>, on an infinite sequence, the loop ends after some \<open>k + 1\<close>
  invocations of the operation: \<open>k\<close> handled failures and an attempt that ends the call.
\<close>

lemma retry_loop_ends:
  assumes "0 \<le> i" and "i < mr" and "\<forall>j. nth_value gen_next j g \<noteq> None"
  shows "\<exists>r k. retry_loop os_sleep mr roe func i g s n ws = Some r
           \<and> calls r = n + Suc k \<and> i + int (Suc k) \<le> mr
           \<and> op_state r = op_after func (Suc k) s
           \<and> (\<forall>j<k. \<exists>e. attempt func j s = Inl e \<and> handles roe e)
           \<and> explains os_sleep roe (i + int (Suc k) = mr) (attempt func k s)
                (nth_value gen_next k g) (outcome r)"
  using assms
proof (induction "nat (mr - 1 - i)" arbitrary: i g s n ws)
  case 0
  then have last: "i + 1 = mr" by simp
  from "0.prems"(3) have "nth_value gen_next 0 g \<noteq> None" by blast
  then obtain w g' where st: "gen_next g = Yield w g'" and w0: "nth_value gen_next 0 g = Some w"
    by (auto simp: nth_value_0 split: step.splits)
  obtain res s' where f: "func s = (res, s')" by (cases "func s")
  from last have stay: "\<not> (\<exists>e. res = Inl e \<and> handles roe e \<and> i + 1 \<noteq> mr
                   \<and> format_wait w = Inr () \<and> time_sleep os_sleep w = Inr ())" by simp
  have "\<exists>r. retry_loop os_sleep mr roe func i g s n ws = Some r
           \<and> calls r = n + 1 \<and> op_state r = s'
           \<and> explains os_sleep roe (i + 1 = mr) res (Some w) (outcome r)"
    using st f stay by (rule retry_loop_ends_now)
  then obtain r where r: "retry_loop os_sleep mr roe func i g s n ws = Some r"
    and c: "calls r = n + 1" and o: "op_state r = s'"
    and x: "explains os_sleep roe (i + 1 = mr) res (Some w) (outcome r)" by blast
  have "retry_loop os_sleep mr roe func i g s n ws = Some r
           \<and> calls r = n + Suc 0 \<and> i + int (Suc 0) \<le> mr
           \<and> op_state r = op_after func (Suc 0) s
           \<and> (\<forall>j<0. \<exists>e. attempt func j s = Inl e \<and> handles roe e)
           \<and> explains os_sleep roe (i + int (Suc 0) = mr) (attempt func 0 s)
                (nth_value gen_next 0 g) (outcome r)"
    using r c o x f w0 last by (simp add: attempt_0)
  then show ?case by blast
next
  case (Suc m)
  then have lt: "i + 1 < mr" and m: "m = nat (mr - 1 - (i + 1))" by simp_all
  from Suc.prems(3) have "nth_value gen_next 0 g \<noteq> None" by blast
  then obtain w g' where st: "gen_next g = Yield w g'" and w0: "nth_value gen_next 0 g = Some w"
    by (auto simp: nth_value_0 split: step.splits)
  obtain res s' where f: "func s = (res, s')" by (cases "func s")
  show ?case
  proof (cases "\<exists>e. res = Inl e \<and> handles roe e \<and> i + 1 \<noteq> mr
                   \<and> format_wait w = Inr () \<and> time_sleep os_sleep w = Inr ()")
    case False
    have "\<exists>r. retry_loop os_sleep mr roe func i g s n ws = Some r
           \<and> calls r = n + 1 \<and> op_state r = s'
           \<and> explains os_sleep roe (i + 1 = mr) res (Some w) (outcome r)"
      using st f False by (rule retry_loop_ends_now)
    then obtain r where r: "retry_loop os_sleep mr roe func i g s n ws = Some r"
      and c: "calls r = n + 1" and o: "op_state r = s'"
      and x: "explains os_sleep roe (i + 1 = mr) res (Some w) (outcome r)" by blast
    have "retry_loop os_sleep mr roe func i g s n ws = Some r
           \<and> calls r = n + Suc 0 \<and> i + int (Suc 0) \<le> mr
           \<and> op_state r = op_after func (Suc 0) s
           \<and> (\<forall>j<0. \<exists>e. attempt func j s = Inl e \<and> handles roe e)
           \<and> explains os_sleep roe (i + int (Suc 0) = mr) (attempt func 0 s)
                (nth_value gen_next 0 g) (outcome r)"
      using r c o x f w0 lt by (simp add: attempt_0)
    then show ?thesis by blast
  next
    case True
    then obtain e where res: "res = Inl e" and h: "handles roe e" and ne: "i + 1 \<noteq> mr"
      and fw: "format_wait w = Inr ()" and sw: "time_sleep os_sleep w = Inr ()" by blast
    from st f res h ne fw sw
    have one: "retry_loop os_sleep mr roe func i g s n ws =
                 retry_loop os_sleep mr roe func (i + 1) g' s' (n + 1) (ws @ [w])"
      by (simp add: retry_loop_retry)
    have inf': "\<forall>j. nth_value gen_next j g' \<noteq> None"
    proof
      fix j
      from Suc.prems(3) have "nth_value gen_next (Suc j) g \<noteq> None" by blast
      with st show "nth_value gen_next j g' \<noteq> None" by (simp add: nth_value_shift)
    qed
    from Suc.prems(1) have "0 \<le> i + 1" by simp
    from Suc.hyps(1) [OF m this lt inf', of s' "n + 1" "ws @ [w]"]
    obtain r k where r: "retry_loop os_sleep mr roe func (i + 1) g' s' (n + 1) (ws @ [w]) = Some r"
      and c: "calls r = n + 1 + Suc k" and b: "i + 1 + int (Suc k) \<le> mr"
      and o: "op_state r = op_after func (Suc k) s'"
      and a: "\<forall>j<k. \<exists>e. attempt func j s' = Inl e \<and> handles roe e"
      and x: "explains os_sleep roe (i + 1 + int (Suc k) = mr) (attempt func k s')
                (nth_value gen_next k g') (outcome r)"
      by blast
    have a': "\<forall>j<Suc k. \<exists>e. attempt func j s = Inl e \<and> handles roe e"
    proof (intro allI impI)
      fix j assume j: "j < Suc k"
      show "\<exists>e. attempt func j s = Inl e \<and> handles roe e"
      proof (cases j)
        case 0
        with f res h show ?thesis by (simp add: attempt_0)
      next
        case (Suc j')
        with j a have "\<exists>e. attempt func j' s' = Inl e \<and> handles roe e" by simp
        with Suc f show ?thesis by (simp add: attempt_Suc)
      qed
    qed
    have eq1: "attempt func (Suc k) s = attempt func k s'" using f by (simp add: attempt_Suc)
    have eq2: "nth_value gen_next (Suc k) g = nth_value gen_next k g'" using st by (rule nth_value_shift)
    have eq3: "op_after func (Suc (Suc k)) s = op_after func (Suc k) s'" using f by simp
    have eq4: "i + int (Suc (Suc k)) = i + 1 + int (Suc k)" by simp
    have "retry_loop os_sleep mr roe func i g s n ws = Some r
           \<and> calls r = n + Suc (Suc k) \<and> i + int (Suc (Suc k)) \<le> mr
           \<and> op_state r = op_after func (Suc (Suc k)) s
           \<and> (\<forall>j<Suc k. \<exists>e. attempt func j s = Inl e \<and> handles roe e)
           \<and> explains os_sleep roe (i + int (Suc (Suc k)) = mr) (attempt func (Suc k) s)
                (nth_value gen_next (Suc k) g) (outcome r)"
      using one r c b o a' x by (simp only: eq1 eq2 eq3 eq4) simp
    then show ?thesis by blast
  qed
qed

text \<open>What \<open>explains\<close> says, exit by exit.\<close>

lemma explains_cases:
  assumes "explains os_sleep roe final res wv out"
  shows "(\<exists>x. out = Returned x \<and> res = Inr x)
       \<or> (\<exists>e. out = Raised Uncaught e \<and> res = Inl e \<and> \<not> handles roe e)
       \<or> (\<exists>e. out = Raised Reraised e \<and> res = Inl e \<and> handles roe e \<and> final)
       \<or> (\<exists>e err v. out = Raised InFormat err \<and> res = Inl e \<and> handles roe e \<and> wv = Some v
             \<and> format_wait v = Inl err)
       \<or> (\<exists>e err v. out = Raised InSleep err \<and> res = Inl e \<and> handles roe e \<and> wv = Some v
             \<and> format_wait v = Inr () \<and> time_sleep os_sleep v = Inl err)"
proof (cases out)
  case (Returned x)
  with assms show ?thesis by simp
next
  case (Raised site err)
  with assms show ?thesis
    by (cases site) (auto split: sum.splits option.splits)
qed

lemma after_loop_only_when_exhausted:
  assumes ret: "retry_loop os_sleep mr roe func i g s n ws = Some r"
  shows "\<forall>e. outcome r = Raised AfterLoop e \<longrightarrow> e = critical_bug \<and> (\<exists>j g'. pull gen_next j g = Stop g')"
  apply (rule retry_loop.raw_induct
    [where P = "\<lambda>os_sleep mr roe func i g s n ws r.
        \<forall>e. outcome r = Raised AfterLoop e \<longrightarrow> e = critical_bug \<and> (\<exists>j g'. pull gen_next j g = Stop g')",
      OF _ ret])
  subgoal premises prems for f os_sleep mr roe func i g s n ws r
  proof (cases "gen_next g")
    case (Stop g')
    then have "pull gen_next 0 g = Stop g'" by simp
    then have "\<exists>j g'. pull gen_next j g = Stop g'" by blast
    with prems(2) Stop show ?thesis by auto
  next
    case (Raise e g')
    with prems(2) show ?thesis by auto
  next
    case (Yield w g')
    show ?thesis
    proof (intro allI impI)
      fix e assume al: "outcome r = Raised AfterLoop e"
      with prems(2) Yield have "f os_sleep mr roe func (i + 1) g' (snd (func s)) (n + 1) (ws @ [w]) = Some r"
        by (auto simp: Let_def split: prod.splits sum.splits if_splits)
      from prems(1) [OF this] al obtain j g'' where "e = critical_bug" and "pull gen_next j g' = Stop g''"
        by blast
      with Yield have "e = critical_bug \<and> pull gen_next (Suc j) g = Stop g''" by simp
      then show "e = critical_bug \<and> (\<exists>j g'. pull gen_next j g = Stop g')" by blast
    qed
  qed
  done

lemma retry_loop_diverges:
  assumes ret: "retry_loop os_sleep mr roe func i g s n ws = Some r"
  shows "\<not> (mr < 1 \<and> 0 \<le> i
            \<and> (\<forall>j. \<exists>e. attempt func j s = Inl e \<and> handles roe e)
            \<and> (\<forall>j. \<exists>v. nth_value gen_next j g = Some v \<and> format_wait v = Inr ()
                    \<and> time_sleep os_sleep v = Inr ()))"
  apply (rule retry_loop.raw_induct
    [where P = "\<lambda>os_sleep mr roe func i g s n ws r.
        \<not> (mr < 1 \<and> 0 \<le> i
            \<and> (\<forall>j. \<exists>e. attempt func j s = Inl e \<and> handles roe e)
            \<and> (\<forall>j. \<exists>v. nth_value gen_next j g = Some v \<and> format_wait v = Inr ()
                    \<and> time_sleep os_sleep v = Inr ()))",
      OF _ ret])
  subgoal premises prems for f os_sleep mr roe func i g s n ws r
  proof
    assume h: "mr < 1 \<and> 0 \<le> i
            \<and> (\<forall>j. \<exists>e. attempt func j s = Inl e \<and> handles roe e)
            \<and> (\<forall>j. \<exists>v. nth_value gen_next j g = Some v \<and> format_wait v = Inr ()
                    \<and> time_sleep os_sleep v = Inr ())"
    then have ne: "i + 1 \<noteq> mr" by simp
    from h obtain w where "nth_value gen_next 0 g = Some w"
      and fw: "format_wait w = Inr ()" and sw: "time_sleep os_sleep w = Inr ()" by blast
    then obtain g' where st: "gen_next g = Yield w g'"
      by (auto simp: nth_value_0 split: step.splits)
    from h obtain e where "attempt func 0 s = Inl e" and hd: "handles roe e" by blast
    then obtain s' where fs: "func s = (Inl e, s')"
      by (cases "func s") (simp add: attempt_0)
    from prems(2) st fs hd ne fw sw
    have again: "f os_sleep mr roe func (i + 1) g' s' (n + 1) (ws @ [w]) = Some r"
      by simp
    have a: "\<forall>j. \<exists>e. attempt func j s' = Inl e \<and> handles roe e"
    proof
      fix j
      from h have "\<exists>e. attempt func (Suc j) s = Inl e \<and> handles roe e" by blast
      with fs show "\<exists>e. attempt func j s' = Inl e \<and> handles roe e" by (simp add: attempt_Suc)
    qed
    have b: "\<forall>j. \<exists>v. nth_value gen_next j g' = Some v \<and> format_wait v = Inr ()
                    \<and> time_sleep os_sleep v = Inr ()"
    proof
      fix j
      from h have "\<exists>v. nth_value gen_next (Suc j) g = Some v \<and> format_wait v = Inr ()
                    \<and> time_sleep os_sleep v = Inr ()" by blast
      with st show "\<exists>v. nth_value gen_next j g' = Some v \<and> format_wait v = Inr ()
                    \<and> time_sleep os_sleep v = Inr ()" by (simp add: nth_value_shift)
    qed
    from h have "mr < 1 \<and> 0 \<le> i + 1" by simp
    with a b prems(1) [OF again] show False by blast
  qed
  done

text \<open>
  C8. With \<open>max_retries \<ge> 1\<close> and a strategy whose sequence is infinite, the call ends
  after \<open>k + 1 \<le> max_retries\<close> invocations of the operation, of which the first \<open>k\<close> failed
  with handled exceptions, and it ends in one of these ways: it returns what the last
  invocation returned; it raises the exception of the last invocation, unhandled, or handled
  and re-raised at attempt number \<open>max_retries\<close>; or the wait after the last invocation
  cannot be performed, because formatting the value for the log message or \<open>time.sleep\<close>
  raises. If every value of the strategy can be waited for, only the first three remain. So
  the call never ends with the exception behind the loop. Whenever a call does end with
  the exception behind the loop, that exception is the labelled \<open>Exception\<close> and the
  strategy's sequence was finite: some \<open>next\<close> raised \<open>StopIteration\<close>.
\<close>

theorem C8_after_loop_unreachable:
  assumes "1 \<le> max_retries self"
  shows "((\<forall>j. nth_value gen_next j (strategy_call (backoff_strategy self)) \<noteq> None) \<longrightarrow>
            (\<exists>r k. wrapped os_sleep self func s = Some r
               \<and> calls r = Suc k \<and> int (Suc k) \<le> max_retries self
               \<and> op_state r = op_after func (Suc k) s
               \<and> (\<forall>j<k. \<exists>e. attempt func j s = Inl e \<and> handles (retry_on_exceptions self) e)
               \<and> ((\<exists>x. outcome r = Returned x \<and> attempt func k s = Inr x)
                  \<or> (\<exists>e. outcome r = Raised Uncaught e \<and> attempt func k s = Inl e
                        \<and> \<not> handles (retry_on_exceptions self) e)
                  \<or> (\<exists>e. outcome r = Raised Reraised e \<and> attempt func k s = Inl e
                        \<and> handles (retry_on_exceptions self) e \<and> int (Suc k) = max_retries self)
                  \<or> (\<exists>e err v. outcome r = Raised InFormat err \<and> attempt func k s = Inl e
                        \<and> handles (retry_on_exceptions self) e
                        \<and> nth_value gen_next k (strategy_call (backoff_strategy self)) = Some v
                        \<and> format_wait v = Inl err)
                  \<or> (\<exists>e err v. outcome r = Raised InSleep err \<and> attempt func k s = Inl e
                        \<and> handles (retry_on_exceptions self) e
                        \<and> nth_value gen_next k (strategy_call (backoff_strategy self)) = Some v
                        \<and> format_wait v = Inr () \<and> time_sleep os_sleep v = Inl err))))
       \<and> ((\<forall>j. \<exists>v. nth_value gen_next j (strategy_call (backoff_strategy self)) = Some v
                  \<and> format_wait v = Inr () \<and> time_sleep os_sleep v = Inr ()) \<longrightarrow>
            (\<exists>r k. wrapped os_sleep self func s = Some r
               \<and> calls r = Suc k \<and> int (Suc k) \<le> max_retries self
               \<and> op_state r = op_after func (Suc k) s
               \<and> (\<forall>j<k. \<exists>e. attempt func j s = Inl e \<and> handles (retry_on_exceptions self) e)
               \<and> ((\<exists>x. outcome r = Returned x \<and> attempt func k s = Inr x)
                  \<or> (\<exists>e. outcome r = Raised Uncaught e \<and> attempt func k s = Inl e
                        \<and> \<not> handles (retry_on_exceptions self) e)
                  \<or> (\<exists>e. outcome r = Raised Reraised e \<and> attempt func k s = Inl e
                        \<and> handles (retry_on_exceptions self) e \<and> int (Suc k) = max_retries self))))
       \<and> (\<forall>r e. wrapped os_sleep self func s = Some r \<and> outcome r = Raised AfterLoop e \<longrightarrow>
             e = critical_bug \<and> (\<exists>j g'. pull gen_next j (strategy_call (backoff_strategy self)) = Stop g'))"
proof -
  let ?g = "strategy_call (backoff_strategy self)"
  let ?mr = "max_retries self"
  let ?roe = "retry_on_exceptions self"
  have ends: "\<exists>r k. wrapped os_sleep self func s = Some r
               \<and> calls r = Suc k \<and> int (Suc k) \<le> ?mr
               \<and> op_state r = op_after func (Suc k) s
               \<and> (\<forall>j<k. \<exists>e. attempt func j s = Inl e \<and> handles ?roe e)
               \<and> ((\<exists>x. outcome r = Returned x \<and> attempt func k s = Inr x)
                  \<or> (\<exists>e. outcome r = Raised Uncaught e \<and> attempt func k s = Inl e \<and> \<not> handles ?roe e)
                  \<or> (\<exists>e. outcome r = Raised Reraised e \<and> attempt func k s = Inl e
                        \<and> handles ?roe e \<and> int (Suc k) = ?mr)
                  \<or> (\<exists>e err v. outcome r = Raised InFormat err \<and> attempt func k s = Inl e
                        \<and> handles ?roe e \<and> nth_value gen_next k ?g = Some v \<and> format_wait v = Inl err)
                  \<or> (\<exists>e err v. outcome r = Raised InSleep err \<and> attempt func k s = Inl e
                        \<and> handles ?roe e \<and> nth_value gen_next k ?g = Some v
                        \<and> format_wait v = Inr () \<and> time_sleep os_sleep v = Inl err))"
    if inf: "\<forall>j. nth_value gen_next j ?g \<noteq> None"
  proof -
    have "(0::int) \<le> 0" by simp
    moreover from assms have "0 < ?mr" by simp
    ultimately have "\<exists>r k. retry_loop os_sleep ?mr ?roe func 0 ?g s 0 [] = Some r
           \<and> calls r = 0 + Suc k \<and> 0 + int (Suc k) \<le> ?mr
           \<and> op_state r = op_after func (Suc k) s
           \<and> (\<forall>j<k. \<exists>e. attempt func j s = Inl e \<and> handles ?roe e)
           \<and> explains os_sleep ?roe (0 + int (Suc k) = ?mr) (attempt func k s)
                (nth_value gen_next k ?g) (outcome r)"
      using inf by (rule retry_loop_ends)
    then obtain r k where r: "wrapped os_sleep self func s = Some r"
      and c: "calls r = Suc k" and b: "int (Suc k) \<le> ?mr"
      and o: "op_state r = op_after func (Suc k) s"
      and a: "\<forall>j<k. \<exists>e. attempt func j s = Inl e \<and> handles ?roe e"
      and x: "explains os_sleep ?roe (int (Suc k) = ?mr) (attempt func k s)
                (nth_value gen_next k ?g) (outcome r)"
      by (auto simp: wrapped_def)
    from explains_cases [OF x] r c b o a show ?thesis by blast
  qed
  have kept: "\<exists>r k. wrapped os_sleep self func s = Some r
               \<and> calls r = Suc k \<and> int (Suc k) \<le> ?mr
               \<and> op_state r = op_after func (Suc k) s
               \<and> (\<forall>j<k. \<exists>e. attempt func j s = Inl e \<and> handles ?roe e)
               \<and> ((\<exists>x. outcome r = Returned x \<and> attempt func k s = Inr x)
                  \<or> (\<exists>e. outcome r = Raised Uncaught e \<and> attempt func k s = Inl e \<and> \<not> handles ?roe e)
                  \<or> (\<exists>e. outcome r = Raised Reraised e \<and> attempt func k s = Inl e
                        \<and> handles ?roe e \<and> int (Suc k) = ?mr))"
    if ok: "\<forall>j. \<exists>v. nth_value gen_next j ?g = Some v \<and> format_wait v = Inr ()
                  \<and> time_sleep os_sleep v = Inr ()"
  proof -
    from ok have "\<forall>j. nth_value gen_next j ?g \<noteq> None" by auto
    from ends [OF this] obtain r k where r: "wrapped os_sleep self func s = Some r"
      and c: "calls r = Suc k" and b: "int (Suc k) \<le> ?mr"
      and o: "op_state r = op_after func (Suc k) s"
      and a: "\<forall>j<k. \<exists>e. attempt func j s = Inl e \<and> handles ?roe e"
      and d: "(\<exists>x. outcome r = Returned x \<and> attempt func k s = Inr x)
                  \<or> (\<exists>e. outcome r = Raised Uncaught e \<and> attempt func k s = Inl e \<and> \<not> handles ?roe e)
                  \<or> (\<exists>e. outcome r = Raised Reraised e \<and> attempt func k s = Inl e
                        \<and> handles ?roe e \<and> int (Suc k) = ?mr)
                  \<or> (\<exists>e err v. outcome r = Raised InFormat err \<and> attempt func k s = Inl e
                        \<and> handles ?roe e \<and> nth_value gen_next k ?g = Some v \<and> format_wait v = Inl err)
                  \<or> (\<exists>e err v. outcome r = Raised InSleep err \<and> attempt func k s = Inl e
                        \<and> handles ?roe e \<and> nth_value gen_next k ?g = Some v
                        \<and> format_wait v = Inr () \<and> time_sleep os_sleep v = Inl err)"
      by blast
    from ok obtain v where v: "nth_value gen_next k ?g = Some v"
      and fv: "format_wait v = Inr ()" and sv: "time_sleep os_sleep v = Inr ()" by blast
    have nf: "\<not> (\<exists>e err v. outcome r = Raised InFormat err \<and> attempt func k s = Inl e
                        \<and> handles ?roe e \<and> nth_value gen_next k ?g = Some v \<and> format_wait v = Inl err)"
      using v fv by auto
    have ns: "\<not> (\<exists>e err v. outcome r = Raised InSleep err \<and> attempt func k s = Inl e
                        \<and> handles ?roe e \<and> nth_value gen_next k ?g = Some v
                        \<and> format_wait v = Inr () \<and> time_sleep os_sleep v = Inl err)"
      using v sv by auto
    from d nf ns have "(\<exists>x. outcome r = Returned x \<and> attempt func k s = Inr x)
                  \<or> (\<exists>e. outcome r = Raised Uncaught e \<and> attempt func k s = Inl e \<and> \<not> handles ?roe e)
                  \<or> (\<exists>e. outcome r = Raised Reraised e \<and> attempt func k s = Inl e
                        \<and> handles ?roe e \<and> int (Suc k) = ?mr)"
      by blast
    with r c b o a show ?thesis by blast
  qed
  have behind: "e = critical_bug \<and> (\<exists>j g'. pull gen_next j ?g = Stop g')"
    if h: "wrapped os_sleep self func s = Some r \<and> outcome r = Raised AfterLoop e" for r e
  proof -
    from h have "retry_loop os_sleep ?mr ?roe func 0 ?g s 0 [] = Some r" by (simp add: wrapped_def)
    from after_loop_only_when_exhausted [OF this] h show ?thesis by blast
  qed
  from ends kept behind show ?thesis by blast
qed

theorem C8_after_loop_unreachable_witness:
  "(\<exists>r k. wrapped (os_sleep_upto 3600) (RetryOnException_init half 5 (Some [ValueError]) (Some NoWait))
            (WorksOnNthAttempt_call 3 failed ''baz'') 1 = Some r
         \<and> calls r = Suc k \<and> int (Suc k) \<le> 5
         \<and> op_state r = op_after (WorksOnNthAttempt_call 3 failed ''baz'') (Suc k) 1
         \<and> ((\<exists>x. outcome r = Returned x \<and> attempt (WorksOnNthAttempt_call 3 failed ''baz'') k 1 = Inr x)
            \<or> (\<exists>e. outcome r = Raised Uncaught e \<and> attempt (WorksOnNthAttempt_call 3 failed ''baz'') k 1 = Inl e
                  \<and> \<not> handles [ValueError] e)
            \<or> (\<exists>e. outcome r = Raised Reraised e \<and> attempt (WorksOnNthAttempt_call 3 failed ''baz'') k 1 = Inl e
                  \<and> handles [ValueError] e \<and> int (Suc k) = 5)))
   \<and> wrapped (os_sleep_upto 3600) (RetryOnException_init half 5 (Some [ValueError]) (Some Exhausted))
        (WorksOnNthAttempt_call 3 failed ''baz'') 1 =
      Some \<lparr> outcome = Raised AfterLoop critical_bug, calls = 0, sleeps = [], op_state = 1,
             gen_state = strategy_call Exhausted \<rparr>
   \<and> (\<exists>j g'. pull gen_next j (strategy_call Exhausted) = Stop g')"
proof -
  let ?f = "WorksOnNthAttempt_call 3 failed ''baz'' :: int \<Rightarrow> (exn + string \<times> int) \<times> int"
  let ?A = "RetryOnException_init half 5 (Some [ValueError]) (Some NoWait)"
  let ?B = "RetryOnException_init half 5 (Some [ValueError]) (Some Exhausted)"
  have a: "1 \<le> max_retries ?A" and b: "1 \<le> max_retries ?B"
    by (simp_all add: RetryOnException_init_def)
  have ok: "\<forall>j. \<exists>v. nth_value gen_next j (strategy_call (backoff_strategy ?A)) = Some v
              \<and> format_wait v = Inr () \<and> time_sleep (os_sleep_upto 3600) v = Inr ()"
    by (simp add: RetryOnException_init_def nth_value_NoWait time_sleep_returns os_sleep_upto_def)
  have run: "wrapped (os_sleep_upto 3600) ?B ?f 1 =
      Some \<lparr> outcome = Raised AfterLoop critical_bug, calls = 0, sleeps = [], op_state = 1,
             gen_state = strategy_call Exhausted \<rparr>"
    by (simp add: wrapped_def RetryOnException_init_def Exhausted_def retry_loop_stop)
  from C8_after_loop_unreachable [OF a, of "os_sleep_upto 3600" ?f 1] ok
  have first: "\<exists>r k. wrapped (os_sleep_upto 3600) ?A ?f 1 = Some r
         \<and> calls r = Suc k \<and> int (Suc k) \<le> 5
         \<and> op_state r = op_after ?f (Suc k) 1
         \<and> ((\<exists>x. outcome r = Returned x \<and> attempt ?f k 1 = Inr x)
            \<or> (\<exists>e. outcome r = Raised Uncaught e \<and> attempt ?f k 1 = Inl e \<and> \<not> handles [ValueError] e)
            \<or> (\<exists>e. outcome r = Raised Reraised e \<and> attempt ?f k 1 = Inl e
                  \<and> handles [ValueError] e \<and> int (Suc k) = 5))"
    by (simp add: RetryOnException_init_def) blast
  from C8_after_loop_unreachable [OF b, of "os_sleep_upto 3600" ?f 1] run
  have second: "\<exists>j g'. pull gen_next j (strategy_call Exhausted) = Stop g'"
    by (simp add: RetryOnException_init_def)
  from first run second show ?thesis by blast
qed

text \<open>
  The two exits of C8 in which the wait cannot be performed, on a strategy that yields
  \<open>10 ** 400\<close> and on one that yields \<open>2 ** 63\<close>: the operation is invoked once.
\<close>

lemma huge_int_wait_fails_in_format:
  "wrapped os_sleep (RetryOnException_init half 5 (Some [ValueError]) (Some (ConstantWait (PInt (10 ^ 400)))))
     always_fails () =
   Some \<lparr> outcome = Raised InFormat (Exn OverflowError ''int too large to convert to float''),
          calls = 1, sleeps = [], op_state = (),
          gen_state = strategy_call (ConstantWait (PInt (10 ^ 400))) \<rparr>"
proof -
  have "format_wait (PInt (10 ^ 400)) = Inl (Exn OverflowError ''int too large to convert to float'')"
    by simp
  then show ?thesis
    by (simp add: wrapped_def RetryOnException_init_def ConstantWait_def always_fails_def
          handles_ValueError retry_loop_format_fails [where e = "failed 1" and s' = "()"])
qed

lemma long_wait_fails_in_sleep:
  "wrapped os_sleep (RetryOnException_init half 5 (Some [ValueError]) (Some (ConstantWait (PInt (2 ^ 63)))))
     always_fails () =
   Some \<lparr> outcome = Raised InSleep (Exn OverflowError ''timestamp too large to convert to C _PyTime_t''),
          calls = 1, sleeps = [], op_state = (),
          gen_state = strategy_call (ConstantWait (PInt (2 ^ 63))) \<rparr>"
proof -
  have "format_wait (PInt (2 ^ 63)) = Inr ()" by simp
  moreover have "time_sleep os_sleep (PInt (2 ^ 63)) =
      Inl (Exn OverflowError ''timestamp too large to convert to C _PyTime_t'')"
    by (simp add: time_sleep_def)
  ultimately show ?thesis
    by (simp add: wrapped_def RetryOnException_init_def ConstantWait_def always_fails_def
          handles_ValueError retry_loop_sleep_fails [where e = "failed 1" and s' = "()"])
qed

lemma keyboard_interrupt_not_handled: "\<not> handles [Exception] (Exn KeyboardInterrupt m)"
  by (simp add: handles_def KeyboardInterrupt_def Exception_def)

text \<open>
  C9. An empty list for \<open>retry_on_exceptions\<close> builds the same decorator as \<open>None\<close>: the
  handled classes are \<open>(Exception,)\<close>, not the empty tuple (which would handle nothing), so
  every exception that is an instance of \<open>Exception\<close> is handled, and the wrapped function
  behaves as with \<open>None\<close>.
  (Exceptions outside \<open>Exception\<close>, such as \<open>KeyboardInterrupt\<close>, are handled in neither
  case: \<open>keyboard_interrupt_not_handled\<close>.)
\<close>

theorem C9_empty_list_is_default:
  "RetryOnException_init uniform mr (Some []) bs = RetryOnException_init uniform mr None bs
   \<and> retry_on_exceptions (RetryOnException_init uniform mr (Some []) bs) = [Exception]
   \<and> retry_on_exceptions (RetryOnException_init uniform mr (Some []) bs) \<noteq> []
   \<and> \<not> handles [] e0
   \<and> (\<forall>e. issubclass (exc_type e) Exception
         \<longrightarrow> handles (retry_on_exceptions (RetryOnException_init uniform mr (Some []) bs)) e)
   \<and> wrapped os_sleep (RetryOnException_init uniform mr (Some []) bs) func s =
       wrapped os_sleep (RetryOnException_init uniform mr None bs) func s"
  by (simp add: RetryOnException_init_def handles_def)

theorem C9_empty_list_is_default_witness:
  "issubclass (exc_type (failed 1)) Exception
   \<and> handles (retry_on_exceptions (RetryOnException_init half 5 (Some []) (Some NoWait))) (failed 1)"
proof -
  have a: "issubclass (exc_type (failed 1)) Exception"
    by (simp add: failed_def ValueError_def Exception_def)
  with C9_empty_list_is_default
    [where uniform = half and mr = 5 and bs = "Some NoWait" and ?e0.0 = "failed 1"
       and os_sleep = "os_sleep_upto 3600" and func = always_fails and s = "()"]
  show ?thesis by blast
qed

text \<open>
  C10. Take an operation that fails with a handled exception at every attempt and a
  strategy that for ever yields values the loop can wait for. With \<open>max_retries < 1\<close> the
  call of the wrapped function does not return, because
  \<open>attempt_number == self.max_retries\<close> never holds; with \<open>max_retries \<ge> 1\<close> it ends after
  exactly \<open>max_retries\<close> invocations.
\<close>

theorem C10_no_budget_no_termination:
  assumes "\<forall>j. \<exists>e. attempt func j s = Inl e \<and> handles (retry_on_exceptions self) e"
    and "\<forall>j. \<exists>v. nth_value gen_next j (strategy_call (backoff_strategy self)) = Some v
               \<and> format_wait v = Inr () \<and> time_sleep os_sleep v = Inr ()"
  shows "(max_retries self < 1 \<longrightarrow> wrapped os_sleep self func s = None)
       \<and> (1 \<le> max_retries self \<longrightarrow>
            (\<exists>r. wrapped os_sleep self func s = Some r \<and> calls r = nat (max_retries self)))"
proof (intro conjI impI)
  assume small: "max_retries self < 1"
  show "wrapped os_sleep self func s = None"
  proof (cases "wrapped os_sleep self func s")
    case None
    then show ?thesis .
  next
    case (Some r)
    then have "retry_loop os_sleep (max_retries self) (retry_on_exceptions self) func 0
         (strategy_call (backoff_strategy self)) s 0 [] = Some r" by (simp add: wrapped_def)
    from retry_loop_diverges [OF this] small assms show ?thesis by simp
  qed
next
  assume "1 \<le> max_retries self"
  moreover from assms(1)
  have "\<forall>j<nat (max_retries self). \<exists>e. attempt func j s = Inl e \<and> handles (retry_on_exceptions self) e"
    by simp
  moreover from assms(2)
  have "\<forall>j<nat (max_retries self) - 1.
          \<exists>v. nth_value gen_next j (strategy_call (backoff_strategy self)) = Some v
             \<and> format_wait v = Inr () \<and> time_sleep os_sleep v = Inr ()"
    by simp
  moreover from assms(2)
  have "nth_value gen_next (nat (max_retries self) - 1) (strategy_call (backoff_strategy self)) \<noteq> None"
    by auto
  ultimately have "\<exists>e. attempt func (nat (max_retries self) - 1) s = Inl e
           \<and> wrapped os_sleep self func s =
               Some \<lparr> outcome = Raised Reraised e, calls = nat (max_retries self),
                      sleeps = first_values gen_next (nat (max_retries self) - 1)
                                 (strategy_call (backoff_strategy self)),
                      op_state = op_after func (nat (max_retries self)) s,
                      gen_state = gen_after gen_next (nat (max_retries self))
                                    (strategy_call (backoff_strategy self)) \<rparr>"
    by (rule wrapped_exhausts_budget)
  then show "\<exists>r. wrapped os_sleep self func s = Some r \<and> calls r = nat (max_retries self)" by auto
qed

theorem C10_no_budget_no_termination_witness:
  "wrapped (os_sleep_upto 3600) (RetryOnException_init half 0 None (Some NoWait)) always_fails () = None
   \<and> wrapped (os_sleep_upto 3600) (RetryOnException_init half (- 3) None (Some NoWait)) always_fails () = None
   \<and> (\<exists>r. wrapped (os_sleep_upto 3600) (RetryOnException_init half 2 None (Some NoWait)) always_fails ()
            = Some r
          \<and> calls r = 2)"
proof -
  have b: "\<forall>j. \<exists>e. attempt always_fails j () = Inl e
              \<and> handles (retry_on_exceptions (RetryOnException_init half mr None (Some NoWait))) e" for mr
    by (simp add: attempt_def always_fails_def RetryOnException_init_def handles_def failed_def
          ValueError_def Exception_def)
  have c: "\<forall>j. \<exists>v. nth_value gen_next j
                 (strategy_call (backoff_strategy (RetryOnException_init half mr None (Some NoWait)))) = Some v
              \<and> format_wait v = Inr () \<and> time_sleep (os_sleep_upto 3600) v = Inr ()" for mr
    by (simp add: RetryOnException_init_def nth_value_NoWait time_sleep_returns os_sleep_upto_def)
  from C10_no_budget_no_termination [OF b c, of 0] C10_no_budget_no_termination [OF b c, of "- 3"]
    C10_no_budget_no_termination [OF b c, of 2]
  show ?thesis by (simp add: RetryOnException_init_def)
qed

end
